theory Spec2Isabelle
  imports Complex_Main
begin

section \<open>Python values\<close>

text \<open>
  The program is a Python script (\<^verbatim>\<open>flare/core.py\<close>). Values decoded from a JSON body are
  dynamically typed, so they are kept as a datatype. A dict is the list of its items in
  insertion order (keys distinct); a string is the list of its code points, each below 256.
  JSON numbers are the integers (a fractional number never occurs in the fields the
  program reads).
\<close>

datatype json =
    JNull
  | JBool bool
  | JInt int
  | JStr string
  | JList "json list"
  | JDict "(string \<times> json) list"

text \<open>
  Exceptions. \<open>SystemExit\<close> and \<open>KeyboardInterrupt\<close> derive from \<open>BaseException\<close> only;
  every other one derives from \<open>Exception\<close>.
\<close>

datatype exn =
    SystemExit int
  | KeyboardInterrupt
  | RequestException
  | JSONDecodeError
  | ValueError
  | KeyError
  | IndexError
  | TypeError
  | AttributeError
  | OSError
  | FileNotFoundError
  | UnboundLocalError

fun is_Exception :: "exn \<Rightarrow> bool" where
  "is_Exception (SystemExit _) = False"
| "is_Exception KeyboardInterrupt = False"
| "is_Exception _ = True"

text \<open>Truth value of an object (\<^verbatim>\<open>if x:\<close>, \<^verbatim>\<open>not x\<close>).\<close>

fun truthy :: "json \<Rightarrow> bool" where
  "truthy JNull = False"
| "truthy (JBool b) = b"
| "truthy (JInt i) = (i \<noteq> 0)"
| "truthy (JStr s) = (s \<noteq> [])"
| "truthy (JList xs) = (xs \<noteq> [])"
| "truthy (JDict kvs) = (kvs \<noteq> [])"

text \<open>\<^verbatim>\<open>x.get(k, d)\<close>: only a dict has the method.\<close>

fun py_get :: "json \<Rightarrow> string \<Rightarrow> json \<Rightarrow> exn + json" where
  "py_get (JDict kvs) k d = (case map_of kvs k of None \<Rightarrow> Inr d | Some v \<Rightarrow> Inr v)"
| "py_get _ k d = Inl AttributeError"

text \<open>\<^verbatim>\<open>x["k"]\<close> with a string key.\<close>

fun py_getitem :: "json \<Rightarrow> string \<Rightarrow> exn + json" where
  "py_getitem (JDict kvs) k = (case map_of kvs k of None \<Rightarrow> Inl KeyError | Some v \<Rightarrow> Inr v)"
| "py_getitem _ k = Inl TypeError"

text \<open>\<^verbatim>\<open>x[0]\<close>. A dict decoded from JSON has string keys only, so the key 0 is missing.\<close>

fun py_index0 :: "json \<Rightarrow> exn + json" where
  "py_index0 (JList []) = Inl IndexError"
| "py_index0 (JList (x # xs)) = Inr x"
| "py_index0 (JStr []) = Inl IndexError"
| "py_index0 (JStr (c # cs)) = Inr (JStr [c])"
| "py_index0 (JDict kvs) = Inl KeyError"
| "py_index0 _ = Inl TypeError"

text \<open>\<^verbatim>\<open>for x in v\<close>: the items of a list, the keys of a dict, the characters of a string.\<close>

fun py_iter :: "json \<Rightarrow> exn + json list" where
  "py_iter (JList xs) = Inr xs"
| "py_iter (JDict kvs) = Inr (map (\<lambda>kv. JStr (fst kv)) kvs)"
| "py_iter (JStr s) = Inr (map (\<lambda>c. JStr [c]) s)"
| "py_iter _ = Inl TypeError"

text \<open>\<^verbatim>\<open>len(x)\<close>.\<close>

fun py_len :: "json \<Rightarrow> exn + nat" where
  "py_len (JList xs) = Inr (length xs)"
| "py_len (JDict kvs) = Inr (length kvs)"
| "py_len (JStr s) = Inr (length s)"
| "py_len _ = Inl TypeError"

text \<open>\<^verbatim>\<open>x.startswith(p)\<close>: only a string has the method.\<close>

fun py_startswith :: "json \<Rightarrow> string \<Rightarrow> exn + bool" where
  "py_startswith (JStr s) p = Inr (take (length p) s = p)"
| "py_startswith _ p = Inl AttributeError"

subsection \<open>Formatting\<close>

text \<open>Decimal digits of a natural number, as \<^verbatim>\<open>str\<close> of an int prints them.\<close>

definition digit_char :: "nat \<Rightarrow> char" where
  "digit_char d = ''0123456789'' ! d"

function str_nat :: "nat \<Rightarrow> string" where
  "str_nat n = (if n < 10 then [digit_char n] else str_nat (n div 10) @ [digit_char (n mod 10)])"
  by pat_completeness auto
termination
  by (relation "measure (\<lambda>n. n)") auto

definition str_int :: "int \<Rightarrow> string" where
  "str_int i = (if i < 0 then CHR ''-'' # str_nat (nat (- i)) else str_nat (nat i))"

text \<open>Two lower-case hexadecimal digits of a byte (\<^verbatim>\<open>\xNN\<close> in a repr, \<^verbatim>\<open>bytes.hex()\<close>).\<close>

definition hex_char :: "nat \<Rightarrow> char" where
  "hex_char d = ''0123456789abcdef'' ! d"

definition hex2 :: "char \<Rightarrow> string" where
  "hex2 c = [hex_char (of_char c div 16), hex_char (of_char c mod 16)]"

text \<open>
  \<^verbatim>\<open>repr\<close> of a string: single quotes, unless the string holds a single quote and no
  double quote; the quote and the backslash are escaped, tab, newline and return are written
  \<^verbatim>\<open>\t \n \r\<close>, every other non-printable code point below 256 as \<^verbatim>\<open>\xNN\<close>.
\<close>

definition printable :: "char \<Rightarrow> bool" where
  "printable c = (let n = (of_char c :: nat) in
     (32 \<le> n \<and> n < 127) \<or> (161 \<le> n \<and> n \<noteq> 173))"

definition repr_char :: "char \<Rightarrow> char \<Rightarrow> string" where
  "repr_char q c =
     (if c = q \<or> c = CHR 0x5C then [CHR 0x5C, c]
      else if c = CHR 0x09 then [CHR 0x5C, CHR ''t'']
      else if c = CHR 0x0A then [CHR 0x5C, CHR ''n'']
      else if c = CHR 0x0D then [CHR 0x5C, CHR ''r'']
      else if printable c then [c]
      else [CHR 0x5C, CHR ''x''] @ hex2 c)"

definition repr_str :: "string \<Rightarrow> string" where
  "repr_str s =
     (let q = (if CHR 0x27 \<in> set s \<and> CHR 0x22 \<notin> set s then CHR 0x22 else CHR 0x27)
      in [q] @ concat (map (repr_char q) s) @ [q])"

fun join :: "string \<Rightarrow> string list \<Rightarrow> string" where
  "join sep [] = []"
| "join sep [x] = x"
| "join sep (x # y # ys) = x @ sep @ join sep (y # ys)"

text \<open>\<^verbatim>\<open>repr(x)\<close>, and \<^verbatim>\<open>str(x)\<close>, which is what an f-string field \<^verbatim>\<open>{x}\<close> inserts.\<close>

fun py_repr :: "json \<Rightarrow> string"
  and py_repr_list :: "json list \<Rightarrow> string list"
  and py_repr_items :: "(string \<times> json) list \<Rightarrow> string list" where
  "py_repr JNull = ''None''"
| "py_repr (JBool b) = (if b then ''True'' else ''False'')"
| "py_repr (JInt i) = str_int i"
| "py_repr (JStr s) = repr_str s"
| "py_repr (JList xs) = ''['' @ join '', '' (py_repr_list xs) @ '']''"
| "py_repr (JDict kvs) = ''{'' @ join '', '' (py_repr_items kvs) @ ''}''"
| "py_repr_list [] = []"
| "py_repr_list (x # xs) = py_repr x # py_repr_list xs"
| "py_repr_items [] = []"
| "py_repr_items ((k, v) # kvs) = (repr_str k @ '': '' @ py_repr v) # py_repr_items kvs"

fun py_str :: "json \<Rightarrow> string" where
  "py_str (JStr s) = s"
| "py_str v = py_repr v"

text \<open>\<^verbatim>\<open>s.split(c)\<close> for a one-character separator: never empty.\<close>

fun split_on :: "char \<Rightarrow> string \<Rightarrow> string list" where
  "split_on c [] = [[]]"
| "split_on c (x # xs) =
     (let r = split_on c xs in if x = c then [] # r else (x # hd r) # tl r)"

text \<open>\<^verbatim>\<open>int(x)\<close> of a float: truncation towards zero.\<close>

definition py_int :: "rat \<Rightarrow> int" where
  "py_int x = (if 0 \<le> x then \<lfloor>x\<rfloor> else \<lceil>x\<rceil>)"

section \<open>Credentials\<close>

text \<open>
  \<^verbatim>\<open>get_api_key\<close> (core.py 17-22). The argument is \<^verbatim>\<open>os.environ.get("CLOUDFLARE_API_KEY")\<close>:
  \<open>None\<close> when the variable is not set. \<^verbatim>\<open>sys.exit(1)\<close> raises \<open>SystemExit 1\<close>.
\<close>

definition get_api_key :: "string option \<Rightarrow> exn + string" where
  "get_api_key environ =
     (case environ of
        None \<Rightarrow> Inl (SystemExit 1)
      | Some api_key \<Rightarrow> if api_key = [] then Inl (SystemExit 1) else Inr api_key)"

text \<open>
  \<^verbatim>\<open>get_headers\<close> (core.py 24-42). \<^verbatim>\<open>email, key = api_key.split(':')\<close> raises \<open>ValueError\<close>
  unless the split has exactly two parts. The dict is kept as the list of its items.
\<close>

type_synonym headers = "(string \<times> string) list"

definition get_headers :: "string option \<Rightarrow> exn + headers" where
  "get_headers environ =
     (case get_api_key environ of
        Inl e \<Rightarrow> Inl e
      | Inr api_key \<Rightarrow>
          if CHR ''@'' \<in> set api_key \<or> CHR ''.'' \<in> set api_key then
            (case split_on CHR '':'' api_key of
               [email, key] \<Rightarrow>
                 Inr [(''X-Auth-Email'', email), (''X-Auth-Key'', key),
                      (''Content-Type'', ''application/json'')]
             | _ \<Rightarrow> Inl ValueError)
          else
            Inr [(''Authorization'', ''Bearer '' @ api_key),
                 (''Content-Type'', ''application/json'')])"

section \<open>The environment\<close>

text \<open>
  Everything outside the script is an environment \<open>sys\<close> over a state \<open>'w\<close> of the outside
  world: the provider's HTTP API, the random sources, the clock, the file system and the
  \<^verbatim>\<open>cloudflared\<close> child process. Each operation reads or changes the world, and says
  whether the call raised. Nothing is assumed about the environment: a theorem that holds
  for every \<open>sys\<close> holds for every behaviour of the provider and of the machine.
\<close>

datatype http_method = GET | POST | PUT | DELETE

record request =
  req_method :: http_method
  req_url :: string
  req_headers :: headers
  req_json :: "json option"

text \<open>
  A response: its status code, and the JSON its body decodes to (\<open>None\<close> when the body
  is not JSON, where \<^verbatim>\<open>response.json()\<close> raises). A call of \<^verbatim>\<open>requests\<close> returns a
  response or raises a \<open>RequestException\<close> (no connection, timeout).
\<close>

record response =
  status_code :: int
  body :: "json option"

datatype reply = NetworkError | Resp response

datatype wait_result = Exited | Interrupted

datatype run_result = RunOk | RunNotFound | RunFailed

record 'w sys =
  http :: "request \<Rightarrow> 'w \<Rightarrow> reply \<times> 'w"
  urandom :: "nat \<Rightarrow> 'w \<Rightarrow> string \<times> 'w"
  random_index :: "'w \<Rightarrow> nat \<times> 'w"
  time_time :: "'w \<Rightarrow> rat"
  path_exists :: "string \<Rightarrow> 'w \<Rightarrow> bool"
  os_remove :: "string \<Rightarrow> 'w \<Rightarrow> bool \<times> 'w"
  write_file :: "string \<Rightarrow> string \<Rightarrow> 'w \<Rightarrow> bool \<times> 'w"
  read_file :: "string \<Rightarrow> 'w \<Rightarrow> string option"
  run_version :: "'w \<Rightarrow> run_result \<times> 'w"
  popen :: "string list \<Rightarrow> 'w \<Rightarrow> bool \<times> 'w"
  poll :: "'w \<Rightarrow> int option"
  terminate :: "'w \<Rightarrow> bool \<times> 'w"
  wait :: "'w \<Rightarrow> wait_result \<times> 'w"

text \<open>
  The place in the script a request is sent from, with the zone and record it is about
  where the script loops over them. The label is bookkeeping of the model: it is written
  to the trace and never read by the program.
\<close>

datatype site =
    ListAccounts
  | CreateTunnel
  | FetchToken
  | ListZones
  | PutConfig
  | CreateDns
  | TeardownZones
  | ListDnsByName json
  | ListDnsAll json
  | DeleteDns json json
  | DeleteTunnel

datatype event =
    EHttp site request reply
  | EWrite string string
  | ERemove string
  | EPopen "string list"
  | ETerminate

text \<open>
  What \<^verbatim>\<open>cleanup\<close> closes over (core.py 525-537): the variables of \<^verbatim>\<open>run_cloudflared\<close>.
\<close>

record cleanup_ctx =
  ctx_token_file :: string
  ctx_tunnel_id :: json
  ctx_account_id :: json
  ctx_tunnel_name :: string
  ctx_debug :: bool

text \<open>
  The state of a run: the world, the trace of what the script did to it, the functions
  registered with \<^verbatim>\<open>atexit\<close> and the handler installed for \<open>SIGINT\<close>.
\<close>

record 'w st =
  world :: 'w
  trace :: "event list"
  atexit :: "cleanup_ctx list"
  sigint :: "cleanup_ctx option"

type_synonym ('w, 'a) prog = "'w st \<Rightarrow> (exn + 'a) \<times> 'w st"

definition ret :: "'a \<Rightarrow> ('w, 'a) prog" where
  "ret x s = (Inr x, s)"

definition throw :: "exn \<Rightarrow> ('w, 'a) prog" where
  "throw e s = (Inl e, s)"

text \<open>A step that only computes: its value, or the exception it raises.\<close>

definition lift :: "exn + 'a \<Rightarrow> ('w, 'a) prog" where
  "lift r s = (r, s)"

text \<open>Sequencing: an exception of the first part skips the rest.\<close>

definition andthen :: "('w, 'a) prog \<Rightarrow> ('a \<Rightarrow> ('w, 'b) prog) \<Rightarrow> ('w, 'b) prog" where
  "andthen m f s = (case m s of (Inl e, s1) \<Rightarrow> (Inl e, s1) | (Inr a, s1) \<Rightarrow> f a s1)"

text \<open>\<^verbatim>\<open>try: m except Exception: h\<close>. \<open>SystemExit\<close> passes through.\<close>

definition try_except :: "('w, 'a) prog \<Rightarrow> (exn \<Rightarrow> ('w, 'a) prog) \<Rightarrow> ('w, 'a) prog" where
  "try_except m h s =
     (case m s of
        (Inl e, s1) \<Rightarrow> if is_Exception e then h e s1 else (Inl e, s1)
      | (Inr a, s1) \<Rightarrow> (Inr a, s1))"

definition emit :: "event \<Rightarrow> 'w st \<Rightarrow> 'w st" where
  "emit e s = s\<lparr>trace := trace s @ [e]\<rparr>"

text \<open>\<^verbatim>\<open>requests.get/post/put/delete(url, headers=..., json=...)\<close>.\<close>

definition requests_call ::
  "'w sys \<Rightarrow> site \<Rightarrow> http_method \<Rightarrow> string \<Rightarrow> headers \<Rightarrow> json option \<Rightarrow> ('w, response) prog" where
  "requests_call sys l m url hs js s =
     (let rq = \<lparr>req_method = m, req_url = url, req_headers = hs, req_json = js\<rparr> in
      case http sys rq (world s) of
        (rep, w1) \<Rightarrow>
          (case rep of NetworkError \<Rightarrow> Inl RequestException | Resp r \<Rightarrow> Inr r,
           emit (EHttp l rq rep) (s\<lparr>world := w1\<rparr>)))"

definition response_json :: "response \<Rightarrow> exn + json" where
  "response_json r = (case body r of None \<Rightarrow> Inl JSONDecodeError | Some j \<Rightarrow> Inr j)"

definition CLOUDFLARE_API_URL :: string where
  "CLOUDFLARE_API_URL = ''https://api.cloudflare.com/client/v4''"

section \<open>Provisioning\<close>

text \<open>
  \<^verbatim>\<open>get_account_id\<close> (core.py 44-61). The prints are left out; \<^verbatim>\<open>print(response.json())\<close>
  of the error branch is guarded by its own handler and followed by \<^verbatim>\<open>sys.exit(1)\<close>.
\<close>

definition get_account_id :: "'w sys \<Rightarrow> string option \<Rightarrow> ('w, json) prog" where
  "get_account_id sys environ =
     andthen (lift (get_headers environ)) (\<lambda>headers.
     andthen (requests_call sys ListAccounts GET (CLOUDFLARE_API_URL @ ''/accounts'') headers None)
       (\<lambda>response.
     if status_code response \<noteq> 200 then throw (SystemExit 1)
     else
       andthen (lift (response_json response)) (\<lambda>j.
       andthen (lift (py_get j ''result'' (JList []))) (\<lambda>accounts.
       if \<not> truthy accounts then throw (SystemExit 1)
       else andthen (lift (py_index0 accounts)) (\<lambda>a. lift (py_getitem a ''id''))))))"

text \<open>
  \<^verbatim>\<open>create_tunnel_with_credentials\<close> (core.py 142-235). \<^verbatim>\<open>with open(token_file, "w")\<close>
  creates the file before \<^verbatim>\<open>f.write\<close> runs, and \<^verbatim>\<open>f.write\<close> of a value that is not a
  string raises \<open>TypeError\<close>; \<open>write_file\<close> is the open and the write together.
\<close>

definition create_tunnel_with_credentials ::
  "'w sys \<Rightarrow> string option \<Rightarrow> json \<Rightarrow> string \<Rightarrow> bool \<Rightarrow> ('w, json \<times> string) prog" where
  "create_tunnel_with_credentials sys environ account_id tunnel_name debug =
     andthen (lift (get_headers environ)) (\<lambda>headers.
     andthen (\<lambda>s. case urandom sys 32 (world s) of
                    (bs, w1) \<Rightarrow> (Inr (concat (map hex2 bs)), s\<lparr>world := w1\<rparr>)) (\<lambda>tunnel_secret.
     andthen (requests_call sys CreateTunnel POST
                (CLOUDFLARE_API_URL @ ''/accounts/'' @ py_str account_id @ ''/cfd_tunnel'') headers
                (Some (JDict [(''name'', JStr tunnel_name),
                              (''tunnel_secret'', JStr tunnel_secret)]))) (\<lambda>response.
     if status_code response \<noteq> 200 then throw (SystemExit 1)
     else
       andthen (lift (response_json response)) (\<lambda>j.
       andthen (lift (py_get j ''result'' (JDict []))) (\<lambda>result.
       andthen (lift (py_get result ''id'' JNull)) (\<lambda>tunnel_id.
       if \<not> truthy tunnel_id then throw (SystemExit 1)
       else
         andthen (requests_call sys FetchToken GET
                    (CLOUDFLARE_API_URL @ ''/accounts/'' @ py_str account_id @ ''/cfd_tunnel/''
                       @ py_str tunnel_id @ ''/token'') headers None) (\<lambda>token_response.
         if status_code token_response \<noteq> 200 then throw (SystemExit 1)
         else
           andthen (lift (response_json token_response)) (\<lambda>tj.
           andthen (lift (py_get tj ''result'' JNull)) (\<lambda>tunnel_token.
           if \<not> truthy tunnel_token then throw (SystemExit 1)
           else
             (let token_file = ''/tmp/cloudflared_token_'' @ py_str tunnel_id @ ''.txt'';
                  content = (case tunnel_token of JStr t \<Rightarrow> t | _ \<Rightarrow> [])
              in andthen (\<lambda>s. case write_file sys token_file content (world s) of
                               (ok, w1) \<Rightarrow>
                                 (if ok then Inr () else Inl OSError,
                                  emit (EWrite token_file content) (s\<lparr>world := w1\<rparr>)))
                   (\<lambda>_. case tunnel_token of
                           JStr t \<Rightarrow> ret (tunnel_id, token_file)
                         | _ \<Rightarrow> throw TypeError)))))))))))"

text \<open>
  \<^verbatim>\<open>get_account_domain\<close> (core.py 321-357). The request is sent before the \<^verbatim>\<open>try\<close>;
  everything after it is inside.
\<close>

definition get_account_domain :: "'w sys \<Rightarrow> string option \<Rightarrow> json \<Rightarrow> bool \<Rightarrow> ('w, json) prog" where
  "get_account_domain sys environ account_id debug =
     andthen (lift (get_headers environ)) (\<lambda>headers.
     andthen (requests_call sys ListZones GET
                (CLOUDFLARE_API_URL @ ''/accounts/'' @ py_str account_id @ ''/zones'') headers None)
       (\<lambda>response.
     try_except
       (if status_code response = 200 then
          andthen (lift (response_json response)) (\<lambda>result.
          andthen (lift (py_get result ''result'' (JList []))) (\<lambda>zones.
          if truthy zones then
            andthen (lift (py_index0 zones)) (\<lambda>z. lift (py_getitem z ''name''))
          else ret (JStr ''trycloudflare.com'')))
        else ret (JStr ''trycloudflare.com''))
       (\<lambda>e. ret (JStr ''trycloudflare.com''))))"

text \<open>
  \<^verbatim>\<open>create_tunnel_config\<close> (core.py 237-319). The configuration \<open>PUT\<close> is outside any
  \<^verbatim>\<open>try\<close>, and its response is only printed. The DNS record is created in the zone whose
  id is written in the source; an exception of that request is swallowed.
\<close>

definition hardcoded_zone_id :: string where
  "hardcoded_zone_id = ''a2dbaff918c783a734197864e6cb7190''"

definition config_data :: "string \<Rightarrow> string \<Rightarrow> int \<Rightarrow> json" where
  "config_data hostname local_addr port =
     JDict [(''config'',
       JDict [(''ingress'',
         JList [JDict [(''hostname'', JStr hostname),
                       (''service'', JStr (''http://'' @ local_addr @ '':'' @ str_int port))],
                JDict [(''service'', JStr ''http_status:404'')]])])]"

definition dns_data :: "json \<Rightarrow> string \<Rightarrow> json" where
  "dns_data tunnel_id tunnel_name =
     JDict [(''type'', JStr ''CNAME''),
            (''name'', JStr tunnel_name),
            (''content'', JStr (py_str tunnel_id @ ''.cfargotunnel.com'')),
            (''ttl'', JInt 1),
            (''proxied'', JBool True)]"

text \<open>The configuration request (core.py 246-277).\<close>

definition put_ingress_config ::
  "'w sys \<Rightarrow> headers \<Rightarrow> json \<Rightarrow> json \<Rightarrow> string \<Rightarrow> string \<Rightarrow> int \<Rightarrow> ('w, response) prog" where
  "put_ingress_config sys headers account_id tunnel_id hostname local_addr port =
     requests_call sys PutConfig PUT
       (CLOUDFLARE_API_URL @ ''/accounts/'' @ py_str account_id @ ''/cfd_tunnel/''
          @ py_str tunnel_id @ ''/configurations'') headers
       (Some (config_data hostname local_addr port))"

text \<open>The DNS record (core.py 279-317), inside its \<^verbatim>\<open>try\<close>.\<close>

definition create_dns_record :: "'w sys \<Rightarrow> headers \<Rightarrow> json \<Rightarrow> string \<Rightarrow> ('w, unit) prog" where
  "create_dns_record sys headers tunnel_id tunnel_name =
     try_except
       (andthen (requests_call sys CreateDns POST
                   (CLOUDFLARE_API_URL @ ''/zones/'' @ hardcoded_zone_id @ ''/dns_records'')
                   headers (Some (dns_data tunnel_id tunnel_name)))
          (\<lambda>dns_response. ret ()))
       (\<lambda>e. ret ())"

definition create_tunnel_config ::
  "'w sys \<Rightarrow> string option \<Rightarrow> json \<Rightarrow> json \<Rightarrow> string \<Rightarrow> int \<Rightarrow> string \<Rightarrow> string option \<Rightarrow> bool
     \<Rightarrow> ('w, string) prog" where
  "create_tunnel_config sys environ account_id tunnel_id tunnel_name port local_addr custom_domain debug =
     andthen (get_account_domain sys environ account_id debug) (\<lambda>domain.
     andthen (lift (get_headers environ)) (\<lambda>headers.
     andthen (put_ingress_config sys headers account_id tunnel_id
                (tunnel_name @ ''.'' @ py_str domain) local_addr port) (\<lambda>response.
     andthen (create_dns_record sys headers tunnel_id tunnel_name) (\<lambda>_.
     ret (tunnel_name @ ''.'' @ py_str domain)))))"

section \<open>Teardown\<close>

text \<open>
  \<^verbatim>\<open>delete_tunnel_and_dns\<close> (core.py 359-496), in the order of the source.

  Step 1, the zones of the account (core.py 364-394). The \<^verbatim>\<open>try\<close> block assigns
  \<^verbatim>\<open>all_zones\<close> as it goes, so the model returns the variable as the block left it
  (\<open>None\<close>: not assigned yet) with the exception that ended the block, if any.
  \<^verbatim>\<open>len(all_zones)\<close> is evaluated in debug mode only.
\<close>

definition zone_id_given :: "string option \<Rightarrow> bool" where
  "zone_id_given zone_id = (case zone_id of None \<Rightarrow> False | Some z \<Rightarrow> z \<noteq> [])"

definition fallback_zones :: "string option \<Rightarrow> json" where
  "fallback_zones zone_id =
     JList [JDict [(''id'', (case zone_id of None \<Rightarrow> JNull | Some z \<Rightarrow> JStr z)),
                   (''name'', JStr ''unknown'')]]"

definition zones_try_block ::
  "'w sys \<Rightarrow> headers \<Rightarrow> json \<Rightarrow> string option \<Rightarrow> bool \<Rightarrow> 'w st
     \<Rightarrow> (json option \<times> exn option) \<times> 'w st" where
  "zones_try_block sys headers account_id zone_id debug s =
     (case requests_call sys TeardownZones GET
             (CLOUDFLARE_API_URL @ ''/accounts/'' @ py_str account_id @ ''/zones'') headers None s of
        (Inl e, s1) \<Rightarrow> ((None, Some e), s1)
      | (Inr zones_response, s1) \<Rightarrow>
          (if status_code zones_response = 200 then
             (case response_json zones_response of
                Inl e \<Rightarrow> (Some (JList []), Some e)
              | Inr zones_data \<Rightarrow>
                  (case py_get zones_data ''result'' (JList []) of
                     Inl e \<Rightarrow> (Some (JList []), Some e)
                   | Inr all_zones \<Rightarrow>
                       if debug then
                         (case py_len all_zones of
                            Inl e \<Rightarrow> (Some all_zones, Some e)
                          | Inr n \<Rightarrow> (Some all_zones, None))
                       else (Some all_zones, None)))
           else if zone_id_given zone_id then (Some (fallback_zones zone_id), None)
           else (Some (JList []), None),
           s1))"

definition enumerate_zones ::
  "'w sys \<Rightarrow> headers \<Rightarrow> json \<Rightarrow> string option \<Rightarrow> bool \<Rightarrow> ('w, json) prog" where
  "enumerate_zones sys headers account_id zone_id debug s =
     (case zones_try_block sys headers account_id zone_id debug s of
        ((all_zones, raised), s1) \<Rightarrow>
          (case (case raised of
                   None \<Rightarrow> Inr all_zones
                 | Some e \<Rightarrow>
                     if is_Exception e then
                       Inr (if zone_id_given zone_id then Some (fallback_zones zone_id) else all_zones)
                     else Inl e) of
             Inl e \<Rightarrow> (Inl e, s1)
           | Inr None \<Rightarrow> (Inl UnboundLocalError, s1)
           | Inr (Some zs) \<Rightarrow>
               (Inr (if \<not> truthy zs \<and> zone_id_given zone_id then fallback_zones zone_id else zs), s1)))"

text \<open>
  Step 2, the records of one zone (core.py 403-469). \<^verbatim>\<open>dns_records_deleted\<close> is a local
  variable that keeps its value when an exception ends the \<^verbatim>\<open>try\<close> block, so each loop
  takes the count and returns it with the exception that ended it, if any.
\<close>

definition dns_record_url :: "json \<Rightarrow> json \<Rightarrow> string" where
  "dns_record_url current_zone_id dns_id =
     CLOUDFLARE_API_URL @ ''/zones/'' @ py_str current_zone_id @ ''/dns_records/'' @ py_str dns_id"

text \<open>The loop of core.py 416-434, over the records the listing by name returned.\<close>

fun delete_listed ::
  "'w sys \<Rightarrow> headers \<Rightarrow> json \<Rightarrow> json list \<Rightarrow> nat \<Rightarrow> 'w st \<Rightarrow> (exn option \<times> nat) \<times> 'w st" where
  "delete_listed sys headers zid [] n s = ((None, n), s)"
| "delete_listed sys headers zid (record # rest) n s =
     (case py_getitem record ''id'' of
        Inl e \<Rightarrow> ((Some e, n), s)
      | Inr dns_id \<Rightarrow>
          (case py_get record ''name'' (JStr ''unknown'') of
             Inl e \<Rightarrow> ((Some e, n), s)
           | Inr record_name \<Rightarrow>
               (case requests_call sys (DeleteDns zid dns_id) DELETE (dns_record_url zid dns_id)
                       headers None s of
                  (Inl e, s1) \<Rightarrow> ((Some e, n), s1)
                | (Inr r, s1) \<Rightarrow>
                    delete_listed sys headers zid rest
                      (if status_code r = 200 then n + 1 else n) s1)))"

text \<open>
  The test of core.py 449: \<^verbatim>\<open>record_name.startswith(f"{tunnel_name}.") or record_name == tunnel_name\<close>.
\<close>

definition name_matches :: "json \<Rightarrow> string \<Rightarrow> exn + bool" where
  "name_matches record_name tunnel_name =
     (case py_startswith record_name (tunnel_name @ ''.'') of
        Inl e \<Rightarrow> Inl e
      | Inr b \<Rightarrow> Inr (b \<or> record_name = JStr tunnel_name))"

text \<open>The loop of core.py 446-466, over all the records of the zone.\<close>

fun delete_matching ::
  "'w sys \<Rightarrow> headers \<Rightarrow> json \<Rightarrow> string \<Rightarrow> json list \<Rightarrow> nat \<Rightarrow> 'w st
     \<Rightarrow> (exn option \<times> nat) \<times> 'w st" where
  "delete_matching sys headers zid tunnel_name [] n s = ((None, n), s)"
| "delete_matching sys headers zid tunnel_name (record # rest) n s =
     (case py_get record ''name'' (JStr []) of
        Inl e \<Rightarrow> ((Some e, n), s)
      | Inr record_name \<Rightarrow>
          (case name_matches record_name tunnel_name of
             Inl e \<Rightarrow> ((Some e, n), s)
           | Inr False \<Rightarrow> delete_matching sys headers zid tunnel_name rest n s
           | Inr True \<Rightarrow>
               (case py_getitem record ''id'' of
                  Inl e \<Rightarrow> ((Some e, n), s)
                | Inr dns_id \<Rightarrow>
                    (case requests_call sys (DeleteDns zid dns_id) DELETE (dns_record_url zid dns_id)
                            headers None s of
                       (Inl e, s1) \<Rightarrow> ((Some e, n), s1)
                     | (Inr r, s1) \<Rightarrow>
                         delete_matching sys headers zid tunnel_name rest
                           (if status_code r = 200 then n + 1 else n) s1))))"

text \<open>\<^verbatim>\<open>response.json().get("result", [])\<close> followed by the iteration over it.\<close>

definition result_items :: "response \<Rightarrow> exn + json" where
  "result_items r =
     (case response_json r of Inl e \<Rightarrow> Inl e | Inr j \<Rightarrow> py_get j ''result'' (JList []))"

text \<open>The first listing, filtered by name, and its deletions (core.py 407-434).\<close>

definition exact_pass ::
  "'w sys \<Rightarrow> headers \<Rightarrow> json \<Rightarrow> string \<Rightarrow> nat \<Rightarrow> 'w st \<Rightarrow> (exn option \<times> nat) \<times> 'w st" where
  "exact_pass sys headers zid tunnel_name n s =
     (case requests_call sys (ListDnsByName zid) GET
             (CLOUDFLARE_API_URL @ ''/zones/'' @ py_str zid @ ''/dns_records?name='' @ tunnel_name)
             headers None s of
        (Inl e, s1) \<Rightarrow> ((Some e, n), s1)
      | (Inr dns_list_response, s1) \<Rightarrow>
          if status_code dns_list_response = 200 then
            (case result_items dns_list_response of
               Inl e \<Rightarrow> ((Some e, n), s1)
             | Inr dns_records \<Rightarrow>
                 if truthy dns_records then
                   (case py_iter dns_records of
                      Inl e \<Rightarrow> ((Some e, n), s1)
                    | Inr records \<Rightarrow> delete_listed sys headers zid records n s1)
                 else ((None, n), s1))
          else ((None, n), s1))"

text \<open>The second listing, of every record of the zone, and its deletions (core.py 438-466).\<close>

definition prefix_pass ::
  "'w sys \<Rightarrow> headers \<Rightarrow> json \<Rightarrow> string \<Rightarrow> nat \<Rightarrow> 'w st \<Rightarrow> (exn option \<times> nat) \<times> 'w st" where
  "prefix_pass sys headers zid tunnel_name n s =
     (case requests_call sys (ListDnsAll zid) GET
             (CLOUDFLARE_API_URL @ ''/zones/'' @ py_str zid @ ''/dns_records'') headers None s of
        (Inl e, s1) \<Rightarrow> ((Some e, n), s1)
      | (Inr dns_list_response, s1) \<Rightarrow>
          if status_code dns_list_response = 200 then
            (case result_items dns_list_response of
               Inl e \<Rightarrow> ((Some e, n), s1)
             | Inr all_dns_records \<Rightarrow>
                 (case py_iter all_dns_records of
                    Inl e \<Rightarrow> ((Some e, n), s1)
                  | Inr records \<Rightarrow> delete_matching sys headers zid tunnel_name records n s1))
          else ((None, n), s1))"

text \<open>The body of the \<^verbatim>\<open>try\<close> block of one zone (core.py 403-466).\<close>

definition zone_try_block ::
  "'w sys \<Rightarrow> headers \<Rightarrow> json \<Rightarrow> string \<Rightarrow> nat \<Rightarrow> 'w st \<Rightarrow> (exn option \<times> nat) \<times> 'w st" where
  "zone_try_block sys headers zid tunnel_name n s =
     (case exact_pass sys headers zid tunnel_name n s of
        ((Some e, n1), s1) \<Rightarrow> ((Some e, n1), s1)
      | ((None, n1), s1) \<Rightarrow>
          if CHR ''.'' \<notin> set tunnel_name then prefix_pass sys headers zid tunnel_name n1 s1
          else ((None, n1), s1))"

text \<open>
  The loop over the zones (core.py 399-469). \<^verbatim>\<open>zone["id"]\<close> and \<^verbatim>\<open>zone.get("name", ...)\<close>
  stand before the \<^verbatim>\<open>try\<close>; \<^verbatim>\<open>except Exception\<close> ends the zone and goes on with the next.
\<close>

fun zones_loop ::
  "'w sys \<Rightarrow> headers \<Rightarrow> string \<Rightarrow> json list \<Rightarrow> nat \<Rightarrow> ('w, nat) prog" where
  "zones_loop sys headers tunnel_name [] n s = (Inr n, s)"
| "zones_loop sys headers tunnel_name (zone # rest) n s =
     (case py_getitem zone ''id'' of
        Inl e \<Rightarrow> (Inl e, s)
      | Inr current_zone_id \<Rightarrow>
          (case py_get zone ''name'' (JStr ''unknown'') of
             Inl e \<Rightarrow> (Inl e, s)
           | Inr zone_name \<Rightarrow>
               (case zone_try_block sys headers current_zone_id tunnel_name n s of
                  ((Some e, n1), s1) \<Rightarrow>
                    if is_Exception e then zones_loop sys headers tunnel_name rest n1 s1
                    else (Inl e, s1)
                | ((None, n1), s1) \<Rightarrow> zones_loop sys headers tunnel_name rest n1 s1)))"

text \<open>Step 3, the tunnel itself (core.py 475-493): whatever it raises is swallowed.\<close>

definition delete_tunnel_step :: "'w sys \<Rightarrow> headers \<Rightarrow> json \<Rightarrow> json \<Rightarrow> ('w, bool) prog" where
  "delete_tunnel_step sys headers account_id tunnel_id =
     try_except
       (andthen (requests_call sys DeleteTunnel DELETE
                   (CLOUDFLARE_API_URL @ ''/accounts/'' @ py_str account_id @ ''/cfd_tunnel/''
                      @ py_str tunnel_id) headers None)
          (\<lambda>delete_tunnel_response. ret (status_code delete_tunnel_response = 200)))
       (\<lambda>e. ret False)"

definition delete_tunnel_and_dns ::
  "'w sys \<Rightarrow> string option \<Rightarrow> json \<Rightarrow> json \<Rightarrow> string \<Rightarrow> string option \<Rightarrow> bool \<Rightarrow> ('w, nat) prog" where
  "delete_tunnel_and_dns sys environ account_id tunnel_id tunnel_name zone_id debug =
     andthen (lift (get_headers environ)) (\<lambda>headers.
     andthen (enumerate_zones sys headers account_id zone_id debug) (\<lambda>all_zones.
     andthen (lift (py_iter all_zones)) (\<lambda>zones.
     andthen (zones_loop sys headers tunnel_name zones 0) (\<lambda>dns_records_deleted.
     andthen (delete_tunnel_step sys headers account_id tunnel_id) (\<lambda>tunnel_deleted.
     ret dns_records_deleted)))))"

section \<open>The tunnel client and the two triggers of teardown\<close>

text \<open>
  \<^verbatim>\<open>cleanup\<close> (core.py 525-537), the closure of \<^verbatim>\<open>run_cloudflared\<close>. Neither
  \<^verbatim>\<open>os.remove\<close> nor \<^verbatim>\<open>process.terminate\<close> stands in a \<^verbatim>\<open>try\<close>.
\<close>

definition cleanup :: "'w sys \<Rightarrow> string option \<Rightarrow> cleanup_ctx \<Rightarrow> ('w, unit) prog" where
  "cleanup sys environ ctx =
     andthen (\<lambda>s. if path_exists sys (ctx_token_file ctx) (world s) then
                     (case os_remove sys (ctx_token_file ctx) (world s) of
                        (ok, w1) \<Rightarrow>
                          (if ok then Inr () else Inl OSError,
                           emit (ERemove (ctx_token_file ctx)) (s\<lparr>world := w1\<rparr>)))
                   else (Inr (), s)) (\<lambda>_.
     andthen (\<lambda>s. if poll sys (world s) = None then
                     (case terminate sys (world s) of
                        (ok, w1) \<Rightarrow>
                          (if ok then Inr () else Inl OSError,
                           emit ETerminate (s\<lparr>world := w1\<rparr>)))
                   else (Inr (), s)) (\<lambda>_.
     andthen (delete_tunnel_and_dns sys environ (ctx_account_id ctx) (ctx_tunnel_id ctx)
                (ctx_tunnel_name ctx) (Some hardcoded_zone_id) (ctx_debug ctx))
       (\<lambda>dns_records_deleted. ret ())))"

text \<open>\<^verbatim>\<open>signal_handler\<close> (core.py 543-547).\<close>

definition signal_handler :: "'w sys \<Rightarrow> string option \<Rightarrow> cleanup_ctx \<Rightarrow> ('w, unit) prog" where
  "signal_handler sys environ ctx =
     andthen (cleanup sys environ ctx) (\<lambda>_. throw (SystemExit 0))"

text \<open>
  What the interpreter does with the \<^verbatim>\<open>atexit\<close> functions when the process ends: it calls
  them, last registered first; an exception of one is printed and dropped, and does not
  change the exit status.
\<close>

fun run_exitfuncs :: "'w sys \<Rightarrow> string option \<Rightarrow> cleanup_ctx list \<Rightarrow> 'w st \<Rightarrow> 'w st" where
  "run_exitfuncs sys environ [] s = s"
| "run_exitfuncs sys environ (ctx # ctxs) s =
     run_exitfuncs sys environ ctxs (snd (cleanup sys environ ctx s))"

text \<open>\<^verbatim>\<open>str.strip()\<close>: white space is dropped at both ends.\<close>

definition is_space :: "char \<Rightarrow> bool" where
  "is_space c = (let n = (of_char c :: nat) in
     (9 \<le> n \<and> n \<le> 13) \<or> (28 \<le> n \<and> n \<le> 32) \<or> n = 133 \<or> n = 160)"

definition strip :: "string \<Rightarrow> string" where
  "strip s = rev (dropWhile is_space (rev (dropWhile is_space s)))"

text \<open>
  \<^verbatim>\<open>run_cloudflared\<close> (core.py 498-563): reads the token back, starts the client, registers
  \<^verbatim>\<open>cleanup\<close> with \<^verbatim>\<open>atexit\<close> and installs the \<open>SIGINT\<close> handler. The debug branch only
  sleeps, polls and prints.
\<close>

definition run_cloudflared ::
  "'w sys \<Rightarrow> string \<Rightarrow> json \<Rightarrow> json \<Rightarrow> string \<Rightarrow> bool \<Rightarrow> ('w, unit) prog" where
  "run_cloudflared sys token_file tunnel_id account_id tunnel_name debug =
     andthen (\<lambda>s. (case read_file sys token_file (world s) of
                      None \<Rightarrow> Inl OSError
                    | Some content \<Rightarrow> Inr (strip content), s)) (\<lambda>token.
     (let cmd = [''cloudflared'', ''tunnel'', ''run'', ''--token'', token] in
      andthen (\<lambda>s. case popen sys cmd (world s) of
                      (ok, w1) \<Rightarrow>
                        (if ok then Inr () else Inl OSError,
                         emit (EPopen cmd) (s\<lparr>world := w1\<rparr>))) (\<lambda>_.
      (\<lambda>s. (Inr (),
             (let ctx = \<lparr>ctx_token_file = token_file, ctx_tunnel_id = tunnel_id,
                         ctx_account_id = account_id, ctx_tunnel_name = tunnel_name,
                         ctx_debug = debug\<rparr>
              in s\<lparr>atexit := ctx # atexit s, sigint := Some ctx\<rparr>))))))"

section \<open>The script\<close>

record args =
  arg_tunnel_name :: "string option"
  arg_port :: int
  arg_domain :: "string option"
  arg_debug :: bool
  arg_local_addr :: string
  arg_no_timestamp :: bool

text \<open>
  \<^verbatim>\<open>check_cloudflared_installed\<close> and \<^verbatim>\<open>install_instructions\<close> (core.py 565-580): only
  \<open>FileNotFoundError\<close> is handled.
\<close>

definition check_cloudflared_installed :: "'w sys \<Rightarrow> ('w, bool) prog" where
  "check_cloudflared_installed sys s =
     (case run_version sys (world s) of
        (r, w1) \<Rightarrow>
          (case r of RunOk \<Rightarrow> Inr True | RunNotFound \<Rightarrow> Inr False | RunFailed \<Rightarrow> Inl OSError,
           s\<lparr>world := w1\<rparr>))"

definition install_instructions :: "('w, unit) prog" where
  "install_instructions = throw (SystemExit 1)"

text \<open>
  \<^verbatim>\<open>random.choices(population, k=k)\<close>: \<open>k\<close> independent draws; the environment supplies
  each draw, which is brought into the range of the population.
\<close>

fun random_choices :: "'w sys \<Rightarrow> string \<Rightarrow> nat \<Rightarrow> 'w \<Rightarrow> string \<times> 'w" where
  "random_choices sys population 0 w = ([], w)"
| "random_choices sys population (Suc k) w =
     (case random_index sys w of
        (d, w1) \<Rightarrow>
          (case random_choices sys population k w1 of
             (cs, w2) \<Rightarrow> ((population ! (d mod length population)) # cs, w2)))"

definition ascii_lowercase :: string where
  "ascii_lowercase = ''abcdefghijklmnopqrstuvwxyz''"

text \<open>The choice of the tunnel name (core.py 607-622).\<close>

definition choose_tunnel_name :: "'w sys \<Rightarrow> args \<Rightarrow> 'w \<Rightarrow> string \<times> 'w" where
  "choose_tunnel_name sys a w =
     (case arg_tunnel_name a of
        None \<Rightarrow> random_choices sys ascii_lowercase 8 w
      | Some base_name \<Rightarrow>
          if arg_no_timestamp a then (base_name, w)
          else (base_name @ ''-'' @ str_int (py_int (time_time sys w)), w))"

text \<open>
  \<^verbatim>\<open>process.wait()\<close> (core.py 659-663). A \<open>SIGINT\<close> that arrives while the script waits runs
  the installed handler in the main thread, and what the handler raises comes out of
  \<^verbatim>\<open>wait\<close>; with no handler installed it is \<open>KeyboardInterrupt\<close>, which the script turns
  into \<^verbatim>\<open>sys.exit(0)\<close>. The interrupt is modelled here, where the script spends its life.
\<close>

definition process_wait :: "'w sys \<Rightarrow> string option \<Rightarrow> ('w, unit) prog" where
  "process_wait sys environ s =
     (case wait sys (world s) of
        (Exited, w1) \<Rightarrow> (Inr (), s\<lparr>world := w1\<rparr>)
      | (Interrupted, w1) \<Rightarrow>
          (case sigint s of
             Some ctx \<Rightarrow> signal_handler sys environ ctx (s\<lparr>world := w1\<rparr>)
           | None \<Rightarrow> (Inl (SystemExit 0), s\<lparr>world := w1\<rparr>)))"

text \<open>
  \<^verbatim>\<open>main\<close> (core.py 582-675): first the body of its \<^verbatim>\<open>try\<close> block (core.py 625-663),
  then the function around it. Both handlers of the \<^verbatim>\<open>try\<close> end in \<^verbatim>\<open>sys.exit(1)\<close>.
\<close>

definition main_try_block :: "'w sys \<Rightarrow> string option \<Rightarrow> args \<Rightarrow> string \<Rightarrow> ('w, unit) prog" where
  "main_try_block sys environ a tunnel_name =
     andthen (lift (get_api_key environ)) (\<lambda>api_key.
     andthen (get_account_id sys environ) (\<lambda>account_id.
     andthen (create_tunnel_with_credentials sys environ account_id tunnel_name (arg_debug a))
       (\<lambda>(tunnel_id, token_file).
     andthen (create_tunnel_config sys environ account_id tunnel_id tunnel_name (arg_port a)
                (arg_local_addr a) (arg_domain a) (arg_debug a)) (\<lambda>hostname.
     andthen (run_cloudflared sys token_file tunnel_id account_id tunnel_name (arg_debug a))
       (\<lambda>_. process_wait sys environ)))))"

definition main :: "'w sys \<Rightarrow> string option \<Rightarrow> args \<Rightarrow> ('w, unit) prog" where
  "main sys environ a =
     andthen (check_cloudflared_installed sys) (\<lambda>installed.
     andthen (if \<not> installed then install_instructions else ret ()) (\<lambda>_.
     andthen (\<lambda>s. case choose_tunnel_name sys a (world s) of
                     (name, w1) \<Rightarrow> (Inr name, s\<lparr>world := w1\<rparr>)) (\<lambda>tunnel_name.
     try_except (main_try_block sys environ a tunnel_name) (\<lambda>e. throw (SystemExit 1)))))"

text \<open>
  A run of the script: \<^verbatim>\<open>main\<close>, then the \<^verbatim>\<open>atexit\<close> functions. The exit status is the
  argument of \<^verbatim>\<open>sys.exit\<close>, 0 when \<^verbatim>\<open>main\<close> returns, 1 when an exception escapes it.
\<close>

definition exit_status :: "exn + unit \<Rightarrow> int" where
  "exit_status r =
     (case r of
        Inr _ \<Rightarrow> 0
      | Inl (SystemExit c) \<Rightarrow> c
      | Inl KeyboardInterrupt \<Rightarrow> 130
      | Inl _ \<Rightarrow> 1)"

definition run_script :: "'w sys \<Rightarrow> string option \<Rightarrow> args \<Rightarrow> 'w \<Rightarrow> int \<times> 'w st" where
  "run_script sys environ a w =
     (case main sys environ a \<lparr>world = w, trace = [], atexit = [], sigint = None\<rparr> of
        (r, s1) \<Rightarrow> (exit_status r, run_exitfuncs sys environ (atexit s1) s1))"

section \<open>A concrete environment\<close>

text \<open>
  One environment to run the model on: a machine with a file system and one child process,
  a clock, and a provider that answers the requests with a prepared list of replies, in
  order (no reply left: the network is down). \<open>removable\<close> says whether \<^verbatim>\<open>os.remove\<close>
  succeeds, \<open>interrupted\<close> whether a \<open>SIGINT\<close> arrives while the script waits.
\<close>

record machine =
  pending :: "reply list"
  files :: "(string \<times> string) list"
  running :: bool
  clock :: rat
  removable :: bool
  interrupted :: bool

definition machine_sys :: "machine sys" where
  "machine_sys =
     \<lparr>http = (\<lambda>rq m. case pending m of
                        [] \<Rightarrow> (NetworkError, m)
                      | r # rs \<Rightarrow> (r, m\<lparr>pending := rs\<rparr>)),
      urandom = (\<lambda>n m. (replicate n (CHR 0x00), m)),
      random_index = (\<lambda>m. (0, m)),
      time_time = clock,
      path_exists = (\<lambda>p m. map_of (files m) p \<noteq> None),
      os_remove = (\<lambda>p m. if removable m
                           then (True, m\<lparr>files := filter (\<lambda>f. fst f \<noteq> p) (files m)\<rparr>)
                           else (False, m)),
      write_file = (\<lambda>p c m. (True, m\<lparr>files := (p, c) # filter (\<lambda>f. fst f \<noteq> p) (files m)\<rparr>)),
      read_file = (\<lambda>p m. map_of (files m) p),
      run_version = (\<lambda>m. (RunOk, m)),
      popen = (\<lambda>cmd m. (True, m\<lparr>running := True\<rparr>)),
      poll = (\<lambda>m. if running m then None else Some 0),
      terminate = (\<lambda>m. (True, m\<lparr>running := False\<rparr>)),
      wait = (\<lambda>m. if interrupted m then (Interrupted, m)
                    else (Exited, m\<lparr>running := False\<rparr>))\<rparr>"

definition machine0 :: machine where
  "machine0 = \<lparr>pending = [], files = [], running = False, clock = 1700000000,
               removable = True, interrupted = True\<rparr>"

definition start :: "machine \<Rightarrow> machine st" where
  "start m = \<lparr>world = m, trace = [], atexit = [], sigint = None\<rparr>"

definition demo_args :: args where
  "demo_args = \<lparr>arg_tunnel_name = Some ''demo'', arg_port = 8080, arg_domain = None,
                arg_debug = False, arg_local_addr = ''localhost'', arg_no_timestamp = False\<rparr>"

text \<open>A reply with status 200 and the provider's envelope around a result.\<close>

definition api_ok :: "json \<Rightarrow> reply" where
  "api_ok v = Resp \<lparr>status_code = 200,
                    body = Some (JDict [(''success'', JBool True), (''result'', v)])\<rparr>"

definition api_error :: "int \<Rightarrow> reply" where
  "api_error code = Resp \<lparr>status_code = code,
                          body = Some (JDict [(''success'', JBool False)])\<rparr>"

definition zone1 :: json where
  "zone1 = JDict [(''id'', JStr ''z1''), (''name'', JStr ''example.com'')]"

text \<open>
  Reading a trace: the events a call added to it, and the requests sent from one site.
\<close>

definition new_events :: "'w st \<Rightarrow> 'w st \<Rightarrow> event list" where
  "new_events s s' = drop (length (trace s)) (trace s')"

fun event_request :: "site \<Rightarrow> event \<Rightarrow> request option" where
  "event_request l (EHttp l' rq rep) = (if l' = l then Some rq else None)"
| "event_request l _ = None"

definition requests_at :: "site \<Rightarrow> event list \<Rightarrow> request list" where
  "requests_at l tr = List.map_filter (event_request l) tr"

text \<open>
  The requests of the loop over the zones: the listing of the zones, the two listings of a
  zone's records and the deletion of a record. \<open>deleted_count\<close> counts the deletions the
  provider answered with 200.
\<close>

fun zone_site :: "site \<Rightarrow> bool" where
  "zone_site TeardownZones = True"
| "zone_site (ListDnsByName z) = True"
| "zone_site (ListDnsAll z) = True"
| "zone_site (DeleteDns z i) = True"
| "zone_site _ = False"

fun zone_event :: "event \<Rightarrow> bool" where
  "zone_event (EHttp l rq rep) = zone_site l"
| "zone_event _ = False"

fun dns_deleted :: "event \<Rightarrow> bool" where
  "dns_deleted (EHttp (DeleteDns z i) rq (Resp x)) = (status_code x = 200)"
| "dns_deleted _ = False"

definition deleted_count :: "event list \<Rightarrow> nat" where
  "deleted_count evs = length (filter dns_deleted evs)"

text \<open>
  \<open>zone_run s n s' n'\<close>: from \<open>s\<close> to \<open>s'\<close> only requests of the loop over the zones were
  sent, the count went from \<open>n\<close> to \<open>n'\<close> by the deletions answered with 200, and the
  registered handlers are the same.
\<close>

definition zone_run :: "'w st \<Rightarrow> nat \<Rightarrow> 'w st \<Rightarrow> nat \<Rightarrow> bool" where
  "zone_run s n s' n' =
     (atexit s' = atexit s \<and> sigint s' = sigint s
      \<and> (\<exists>evs. trace s' = trace s @ evs \<and> list_all zone_event evs
                 \<and> n' = n + deleted_count evs))"

text \<open>What \<^verbatim>\<open>cleanup\<close> does on the machine itself before it turns to the provider.\<close>

fun local_event :: "event \<Rightarrow> bool" where
  "local_event (ERemove p) = True"
| "local_event ETerminate = True"
| "local_event _ = False"

text \<open>
  A token request the provider refused (a response with a status other than 200), and the
  events that are requests. \<open>quiet s s'\<close>: from \<open>s\<close> to \<open>s'\<close> no token request was refused.
\<close>

fun refused_token :: "event \<Rightarrow> bool" where
  "refused_token (EHttp FetchToken rq (Resp x)) = (status_code x \<noteq> 200)"
| "refused_token _ = False"

fun is_request :: "event \<Rightarrow> bool" where
  "is_request (EHttp l rq rep) = True"
| "is_request _ = False"

definition quiet :: "'w st \<Rightarrow> 'w st \<Rightarrow> bool" where
  "quiet s s' = (\<exists>evs. trace s' = trace s @ evs \<and> list_all (\<lambda>e. \<not> refused_token e) evs)"

text \<open>The replies of a provisioning that goes well, after the tunnel exists.\<close>

definition config_replies :: "reply list" where
  "config_replies = [api_ok (JList [zone1]), api_ok (JDict []), api_ok (JDict [(''id'', JStr ''r1'')])]"

text \<open>The configuration of the tunnel \<open>tid\<close> named \<open>demo\<close> on that machine.\<close>

definition demo_config_run :: "(exn + string) \<times> machine st" where
  "demo_config_run =
     create_tunnel_config machine_sys (Some ''tok'') (JStr ''acc'') (JStr ''tid'') ''demo'' 8080
       ''localhost'' None False (start (machine0\<lparr>pending := config_replies\<rparr>))"

text \<open>
  Whole runs of the script on that machine, for the tunnel \<open>demo\<close> without a timestamp.
  The provider answers the six requests of provisioning, then the requests of a first
  teardown, in which one record of the zone matches and is deleted, then those of a second
  teardown, in which nothing is left and the tunnel is reported as not found.
\<close>

definition provisioning_replies :: "reply list" where
  "provisioning_replies =
     [api_ok (JList [JDict [(''id'', JStr ''acc'')]]),
      api_ok (JDict [(''id'', JStr ''tid'')]),
      api_ok (JStr ''tok'')] @ config_replies"

definition teardown_replies :: "reply list" where
  "teardown_replies =
     [api_ok (JList [zone1]),
      api_ok (JList []),
      api_ok (JList [JDict [(''id'', JStr ''r1''), (''name'', JStr ''demo.example.com'')]]),
      api_ok (JDict [(''id'', JStr ''r1'')]),
      api_ok (JDict [(''id'', JStr ''tid'')])]"

definition second_teardown_replies :: "reply list" where
  "second_teardown_replies =
     [api_ok (JList [zone1]), api_ok (JList []), api_ok (JList []), api_error 404]"

definition plain_args :: args where
  "plain_args = demo_args\<lparr>arg_no_timestamp := True\<rparr>"


text \<open>The same run on a machine where \<^verbatim>\<open>os.remove\<close> of the token file fails.\<close>

definition stuck_file_run :: "int \<times> machine st" where
  "stuck_file_run =
     run_script machine_sys (Some ''tok'') plain_args
       (machine0\<lparr>pending := provisioning_replies @ teardown_replies @ second_teardown_replies,
                 removable := False\<rparr>)"

text \<open>
  A run in which the provider lists the account and creates the tunnel, and then refuses
  the request for the run token with status 403.
\<close>

definition refused_run :: "int \<times> machine st" where
  "refused_run =
     run_script machine_sys (Some ''tok'') plain_args
       (machine0\<lparr>pending := [api_ok (JList [JDict [(''id'', JStr ''acc'')]]),
                             api_ok (JDict [(''id'', JStr ''tid'')]),
                             api_error 403]\<rparr>)"

text \<open>The context \<^verbatim>\<open>cleanup\<close> closes over in these runs.\<close>

definition demo_ctx :: cleanup_ctx where
  "demo_ctx = \<lparr>ctx_token_file = ''/tmp/cloudflared_token_tid.txt'', ctx_tunnel_id = JStr ''tid'',
               ctx_account_id = JStr ''acc'', ctx_tunnel_name = ''demo'', ctx_debug = False\<rparr>"

text \<open>
  The machine as provisioning leaves it: the token file written, the client running, the
  replies of the two teardowns still to come.
\<close>

definition teardown_state :: "machine st" where
  "teardown_state =
     start (machine0\<lparr>pending := teardown_replies @ second_teardown_replies,
                     files := [(''/tmp/cloudflared_token_tid.txt'', ''tok'')],
                     running := True\<rparr>)"

text \<open>
  Reading the deletion of records off a trace. \<open>record_id\<close>: \<^verbatim>\<open>record["id"]\<close>, where it can
  be read. \<open>record_matches\<close>: the test the second loop makes on a record, where it can be
  made. \<open>checkable\<close>: the second loop gets past the record. \<open>delete_request\<close>: the event is
  the request that deletes a record of a zone; \<open>delete_sent\<close>: a trace has such a request.
\<close>

fun network_error :: "event \<Rightarrow> bool" where
  "network_error (EHttp l rq NetworkError) = True"
| "network_error _ = False"

definition record_id :: "json \<Rightarrow> json option" where
  "record_id item = (case py_getitem item ''id'' of Inl e \<Rightarrow> None | Inr i \<Rightarrow> Some i)"

definition record_matches :: "string \<Rightarrow> json \<Rightarrow> bool option" where
  "record_matches tunnel_name item =
     (case py_get item ''name'' (JStr []) of
        Inl e \<Rightarrow> None
      | Inr record_name \<Rightarrow>
          (case name_matches record_name tunnel_name of Inl e \<Rightarrow> None | Inr b \<Rightarrow> Some b))"

definition checkable :: "string \<Rightarrow> json \<Rightarrow> bool" where
  "checkable tunnel_name item =
     (case record_matches tunnel_name item of
        None \<Rightarrow> False
      | Some b \<Rightarrow> b \<longrightarrow> record_id item \<noteq> None)"

fun delete_request :: "json \<Rightarrow> json \<Rightarrow> event \<Rightarrow> bool" where
  "delete_request zid dns_id (EHttp l rq rep) =
     (l = DeleteDns zid dns_id \<and> req_method rq = DELETE
      \<and> req_url rq = dns_record_url zid dns_id)"
| "delete_request zid dns_id _ = False"

definition delete_sent :: "json \<Rightarrow> json \<Rightarrow> event list \<Rightarrow> bool" where
  "delete_sent zid dns_id evs = list_ex (delete_request zid dns_id) evs"

text \<open>
  What an answer to a listing gives the loops to work on. \<open>answer_records\<close>: the records
  the loop iterates over (none unless the status is 200 and \<open>result\<close> can be iterated).
  \<open>listed_ids\<close>: the identifiers of those records, in order, for the first loop;
  \<open>matching_ids\<close>: the identifiers of those that pass the test of the second loop.
  \<open>readable\<close>: the first pass gets through the answer without an exception (a status other
  than 200 is skipped without one); \<open>testable\<close>: the same for the second pass.
\<close>

fun answer_records :: "reply \<Rightarrow> json list" where
  "answer_records NetworkError = []"
| "answer_records (Resp x) =
     (if status_code x = 200 then
        (case result_items x of
           Inl e \<Rightarrow> []
         | Inr v \<Rightarrow> (case py_iter v of Inl e \<Rightarrow> [] | Inr records \<Rightarrow> records))
      else [])"

definition listed_ids :: "reply \<Rightarrow> json list" where
  "listed_ids rep = List.map_filter record_id (answer_records rep)"

definition matching_ids :: "string \<Rightarrow> reply \<Rightarrow> json list" where
  "matching_ids tunnel_name rep =
     List.map_filter record_id
       (filter (\<lambda>item. record_matches tunnel_name item = Some True) (answer_records rep))"

fun readable :: "reply \<Rightarrow> bool" where
  "readable NetworkError = False"
| "readable (Resp x) =
     (status_code x \<noteq> 200
      \<or> (case result_items x of
            Inl e \<Rightarrow> False
          | Inr v \<Rightarrow>
              \<not> truthy v
              \<or> (case py_iter v of
                    Inl e \<Rightarrow> False
                  | Inr records \<Rightarrow> list_all (\<lambda>item. record_id item \<noteq> None) records)))"

fun testable :: "string \<Rightarrow> reply \<Rightarrow> bool" where
  "testable tunnel_name NetworkError = False"
| "testable tunnel_name (Resp x) =
     (status_code x \<noteq> 200
      \<or> (case result_items x of
            Inl e \<Rightarrow> False
          | Inr v \<Rightarrow>
              (case py_iter v of
                 Inl e \<Rightarrow> False
               | Inr records \<Rightarrow> list_all (checkable tunnel_name) records)))"

text \<open>
  \<open>deletes_prefix zid ids devs\<close>: the events \<open>devs\<close> are the requests that delete the records
  \<open>ids\<close> of the zone, one each and in that order, up to some point.
\<close>

definition deletes_prefix :: "json \<Rightarrow> json list \<Rightarrow> event list \<Rightarrow> bool" where
  "deletes_prefix zid ids devs =
     (length devs \<le> length ids \<and> list_all2 (delete_request zid) (take (length devs) ids) devs)"

text \<open>
  The events of the work on one zone. \<open>second_pass\<close>: the listing of all the records of
  the zone, then the deletion of the records that pass the test, all of them if the
  answer is testable and no deletion fails on the network. \<open>visit\<close>: the listing filtered
  by the name of the tunnel, then the deletion of the records listed, all of them if the
  answer is readable and no deletion fails on the network; after that the second pass, if
  the name of the tunnel has no dot and the first pass came to its end, and nothing
  otherwise.
\<close>

definition second_pass :: "string \<Rightarrow> json \<Rightarrow> event list \<Rightarrow> bool" where
  "second_pass tunnel_name zid evs =
     (\<exists>rq rep devs.
        evs = EHttp (ListDnsAll zid) rq rep # devs
      \<and> req_method rq = GET
      \<and> req_url rq = CLOUDFLARE_API_URL @ ''/zones/'' @ py_str zid @ ''/dns_records''
      \<and> deletes_prefix zid (matching_ids tunnel_name rep) devs
      \<and> (testable tunnel_name rep \<and> \<not> list_ex network_error devs
           \<longrightarrow> length devs = length (matching_ids tunnel_name rep)))"

definition visit :: "string \<Rightarrow> json \<Rightarrow> event list \<Rightarrow> bool" where
  "visit tunnel_name zid evs =
     (\<exists>rq rep devs rest.
        evs = EHttp (ListDnsByName zid) rq rep # devs @ rest
      \<and> req_method rq = GET
      \<and> req_url rq = CLOUDFLARE_API_URL @ ''/zones/'' @ py_str zid @ ''/dns_records?name=''
                       @ tunnel_name
      \<and> deletes_prefix zid (listed_ids rep) devs
      \<and> (readable rep \<and> \<not> list_ex network_error devs
           \<longrightarrow> length devs = length (listed_ids rep))
      \<and> (if CHR ''.'' \<notin> set tunnel_name \<and> readable rep \<and> \<not> list_ex network_error devs
          then second_pass tunnel_name zid rest
          else rest = []))"

definition zone_visit :: "string \<Rightarrow> json \<Rightarrow> event list \<Rightarrow> bool" where
  "zone_visit tunnel_name zone evs =
     (case record_id zone of None \<Rightarrow> False | Some zid \<Rightarrow> visit tunnel_name zid evs)"

text \<open>The requests of a trace, by method and address.\<close>

fun event_call :: "event \<Rightarrow> (http_method \<times> string) option" where
  "event_call (EHttp l rq rep) = Some (req_method rq, req_url rq)"
| "event_call _ = None"

definition calls :: "event list \<Rightarrow> (http_method \<times> string) list" where
  "calls tr = List.map_filter event_call tr"

text \<open>The records of an answer with status 200 whose \<open>result\<close> is a list.\<close>

fun as_list :: "json \<Rightarrow> json list option" where
  "as_list (JList xs) = Some xs"
| "as_list _ = None"

fun listed :: "reply \<Rightarrow> json list option" where
  "listed NetworkError = None"
| "listed (Resp x) =
     (if status_code x = 200 then
        (case result_items x of Inl e \<Rightarrow> None | Inr v \<Rightarrow> as_list v)
      else None)"

text \<open>
  A provider that answers by address, from a table; an address that is not in the table
  is answered with 404.
\<close>

definition table_sys :: "(string \<times> reply) list \<Rightarrow> machine sys" where
  "table_sys table =
     machine_sys\<lparr>http := (\<lambda>rq m. (case map_of table (req_url rq) of
                                      None \<Rightarrow> api_error 404
                                    | Some rep \<Rightarrow> rep, m))\<rparr>"

text \<open>
  The account has the zone \<open>z1\<close>. The listing by the name \<open>demo\<close> returns one record, the
  listing of all records three: one of the tunnel \<open>demo\<close>, one that belongs to no tunnel
  and one of the tunnel \<open>my.app\<close>. Every deletion is answered with 200.
\<close>

definition dns_record :: "string \<Rightarrow> string \<Rightarrow> json" where
  "dns_record i name = JDict [(''id'', JStr i), (''name'', JStr name), (''type'', JStr ''CNAME'')]"

definition zone1_records :: "json list" where
  "zone1_records =
     [dns_record ''r1'' ''demo.example.com'',
      dns_record ''r2'' ''www.example.com'',
      dns_record ''r3'' ''my.app.example.com'']"

definition provider_table :: "(string \<times> reply) list" where
  "provider_table =
     [(CLOUDFLARE_API_URL @ ''/accounts/acc/zones'', api_ok (JList [zone1])),
      (CLOUDFLARE_API_URL @ ''/zones/z1/dns_records?name=demo'',
         api_ok (JList [dns_record ''r0'' ''demo''])),
      (CLOUDFLARE_API_URL @ ''/zones/z1/dns_records?name=my.app'', api_ok (JList [])),
      (CLOUDFLARE_API_URL @ ''/zones/z1/dns_records'', api_ok (JList zone1_records)),
      (CLOUDFLARE_API_URL @ ''/zones/z1/dns_records/r0'', api_ok (JDict [(''id'', JStr ''r0'')])),
      (CLOUDFLARE_API_URL @ ''/zones/z1/dns_records/r1'', api_ok (JDict [(''id'', JStr ''r1'')])),
      (CLOUDFLARE_API_URL @ ''/zones/z1/dns_records/r2'', api_ok (JDict [(''id'', JStr ''r2'')])),
      (CLOUDFLARE_API_URL @ ''/zones/z1/dns_records/r3'', api_ok (JDict [(''id'', JStr ''r3'')])),
      (CLOUDFLARE_API_URL @ ''/accounts/acc/cfd_tunnel/tid'', api_ok (JDict [(''id'', JStr ''tid'')]))]"

definition provider_sys :: "machine sys" where
  "provider_sys = table_sys provider_table"

text \<open>The teardown of the tunnel \<open>my.app\<close> with that provider.\<close>

definition dotted_teardown :: "(exn + nat) \<times> machine st" where
  "dotted_teardown =
     delete_tunnel_and_dns provider_sys (Some ''tok'') (JStr ''acc'') (JStr ''tid'') ''my.app''
       (Some hardcoded_zone_id) False (start machine0)"

text \<open>
  The same provider for an account with a second zone, \<open>z0\<close>, that comes first and whose
  listing by name is answered with a body that is not JSON; and the teardown of the tunnel
  \<open>demo\<close> there.
\<close>

definition zone0 :: json where
  "zone0 = JDict [(''id'', JStr ''z0''), (''name'', JStr ''example.org'')]"

definition two_zone_table :: "(string \<times> reply) list" where
  "two_zone_table =
     [(CLOUDFLARE_API_URL @ ''/accounts/acc/zones'', api_ok (JList [zone0, zone1])),
      (CLOUDFLARE_API_URL @ ''/zones/z0/dns_records?name=demo'',
         Resp \<lparr>status_code = 200, body = None\<rparr>)]
     @ provider_table"

definition two_zone_teardown :: "(exn + nat) \<times> machine st" where
  "two_zone_teardown =
     delete_tunnel_and_dns (table_sys two_zone_table) (Some ''tok'') (JStr ''acc'') (JStr ''tid'')
       ''demo'' (Some hardcoded_zone_id) False (start machine0)"

section \<open>Properties of the credential resolver\<close>

lemma split_on_length: "length (split_on c s) = Suc (count_list s c)"
  by (induction s) (auto simp: Let_def)

text \<open>
  Claim C3, as the code has it. For every non-empty secret (an empty one counts as not set
  and ends the run): if it contains \<open>@\<close> or \<open>.\<close>, it is split on \<open>:\<close>; when the split has
  exactly two parts, empty or not, the resolver returns the \<open>X-Auth-Email\<close>/\<open>X-Auth-Key\<close>
  headers made of them, and with any other number of parts it fails (\<open>ValueError\<close>). A
  secret with neither \<open>@\<close> nor \<open>.\<close> gives the \<open>Authorization: Bearer\<close> headers.
\<close>

theorem get_headers_classification:
  assumes "api_key \<noteq> []"
  shows "(CHR ''@'' \<in> set api_key \<or> CHR ''.'' \<in> set api_key \<longrightarrow>
           (\<forall>email key. split_on CHR '':'' api_key = [email, key] \<longrightarrow>
              get_headers (Some api_key) =
                Inr [(''X-Auth-Email'', email), (''X-Auth-Key'', key),
                     (''Content-Type'', ''application/json'')])
           \<and> (length (split_on CHR '':'' api_key) \<noteq> 2 \<longrightarrow>
                get_headers (Some api_key) = Inl ValueError))
       \<and> (CHR ''@'' \<notin> set api_key \<and> CHR ''.'' \<notin> set api_key \<longrightarrow>
            get_headers (Some api_key) =
              Inr [(''Authorization'', ''Bearer '' @ api_key),
                   (''Content-Type'', ''application/json'')])"
  using assms
  by (auto simp: get_headers_def get_api_key_def split: list.splits)

theorem get_headers_classification_witness:
  "get_headers (Some ''a@b.c:k1'') =
     Inr [(''X-Auth-Email'', ''a@b.c''), (''X-Auth-Key'', ''k1''),
          (''Content-Type'', ''application/json'')]
   \<and> get_headers (Some ''a@b.c:k1:x'') = Inl ValueError
   \<and> get_headers (Some ''tok'') =
       Inr [(''Authorization'', ''Bearer tok''), (''Content-Type'', ''application/json'')]"
proof -
  have n1: "''a@b.c:k1'' \<noteq> []" and n2: "''a@b.c:k1:x'' \<noteq> []" and n3: "''tok'' \<noteq> []"
    by simp_all
  show ?thesis
    using get_headers_classification [OF n1] get_headers_classification [OF n2]
      get_headers_classification [OF n3]
    by simp
qed

text \<open>
  The claim as stated asks for two non-empty parts and a failure otherwise. The secret
  \<open>a@b:\<close> splits into \<open>a@b\<close> and the empty string, and the resolver returns headers with
  an empty key.
\<close>

theorem get_headers_empty_key_counterexample:
  "split_on CHR '':'' ''a@b:'' = [''a@b'', '''']
   \<and> get_headers (Some ''a@b:'') =
       Inr [(''X-Auth-Email'', ''a@b''), (''X-Auth-Key'', ''''),
            (''Content-Type'', ''application/json'')]"
  by (simp add: get_headers_def get_api_key_def)

section \<open>Properties of the tunnel name\<close>

text \<open>The decimal notation can be read back, so it tells two numbers apart.\<close>

lemma digit_char_cases:
  assumes "(d :: nat) < 10"
  shows "d \<in> {0, 1, 2, 3, 4, 5, 6, 7, 8, 9}"
  using assms by auto

lemma digit_char_value: "d < 10 \<Longrightarrow> of_char (digit_char d) = 48 + d"
  using digit_char_cases [of d] by (auto simp: digit_char_def)

lemma str_nat_read_back:
  "foldl (\<lambda>a c. 10 * a + (of_char c - 48)) 0 (str_nat n) = n"
proof (induction n rule: str_nat.induct)
  case (1 n)
  show ?case
  proof (cases "n < 10")
    case True
    then show ?thesis by (simp add: digit_char_value)
  next
    case False
    with 1 have "foldl (\<lambda>a c. 10 * a + (of_char c - 48)) 0 (str_nat (n div 10)) = n div 10"
      by simp
    with False show ?thesis
      by (subst str_nat.simps) (simp add: digit_char_value)
  qed
qed

lemma str_nat_inj: "str_nat m = str_nat n \<Longrightarrow> m = n"
  by (metis str_nat_read_back)

lemma str_nat_first: "str_nat n \<noteq> [] \<and> hd (str_nat n) \<noteq> CHR ''-''"
proof (induction n rule: str_nat.induct)
  case (1 n)
  show ?case
  proof (cases "n < 10")
    case True
    then have "of_char (digit_char n) \<noteq> (45 :: nat)" by (simp add: digit_char_value)
    then have "digit_char n \<noteq> CHR ''-''" by auto
    with True show ?thesis by simp
  next
    case False
    with 1 have "str_nat (n div 10) \<noteq> [] \<and> hd (str_nat (n div 10)) \<noteq> CHR ''-''" by simp
    with False show ?thesis
      by (subst (1 2) str_nat.simps) simp
  qed
qed

lemma str_int_inj:
  assumes eq: "str_int i = str_int j"
  shows "i = j"
proof -
  have neg: "\<And>k. k < 0 \<Longrightarrow> hd (str_int k) = CHR ''-''" by (simp add: str_int_def)
  have pos: "\<And>k. \<not> k < 0 \<Longrightarrow> hd (str_int k) \<noteq> CHR ''-''"
    using str_nat_first by (simp add: str_int_def)
  have same: "(i < 0) = (j < 0)" using eq neg pos by metis
  show ?thesis
  proof (cases "i < 0")
    case True
    with same eq have "str_nat (nat (- i)) = str_nat (nat (- j))" by (simp add: str_int_def)
    then have "nat (- i) = nat (- j)" by (rule str_nat_inj)
    with True same show ?thesis by simp
  next
    case False
    with same eq have "str_nat (nat i) = str_nat (nat j)" by (simp add: str_int_def)
    then have "nat i = nat j" by (rule str_nat_inj)
    with False same show ?thesis by simp
  qed
qed

lemma random_choices_letters:
  "population \<noteq> [] \<Longrightarrow>
     length (fst (random_choices sys population k w)) = k
     \<and> set (fst (random_choices sys population k w)) \<subseteq> set population"
proof (induction k arbitrary: w)
  case 0
  then show ?case by simp
next
  case (Suc k)
  obtain d w1 where d: "random_index sys w = (d, w1)" by (cases "random_index sys w")
  obtain cs w2 where cs: "random_choices sys population k w1 = (cs, w2)"
    by (cases "random_choices sys population k w1")
  from Suc.IH [OF Suc.prems, of w1] cs
  have ih: "length cs = k \<and> set cs \<subseteq> set population" by simp
  from Suc.prems have "population ! (d mod length population) \<in> set population" by simp
  with ih d cs show ?case by simp
qed

text \<open>
  Claim C7, as the code has it. With a name and without \<^verbatim>\<open>--no-timestamp\<close> the tunnel name is
  the base name, a hyphen and the clock truncated to whole seconds
  (\<^verbatim>\<open>int(time.time())\<close>), so two runs get different names when they start in different
  whole seconds; with \<^verbatim>\<open>--no-timestamp\<close> the name is the base name; without a name it is
  eight lower-case letters.
\<close>

theorem tunnel_naming:
  "(arg_tunnel_name a = Some base \<and> \<not> arg_no_timestamp a \<longrightarrow>
      fst (choose_tunnel_name sys a w) = base @ ''-'' @ str_int (py_int (time_time sys w))
      \<and> (py_int (time_time sys w) \<noteq> py_int (time_time sys' w') \<longrightarrow>
           fst (choose_tunnel_name sys a w) \<noteq> fst (choose_tunnel_name sys' a w')))
   \<and> (arg_tunnel_name a = Some base \<and> arg_no_timestamp a \<longrightarrow>
        fst (choose_tunnel_name sys a w) = base)
   \<and> (arg_tunnel_name a = None \<longrightarrow>
        length (fst (choose_tunnel_name sys a w)) = 8
        \<and> set (fst (choose_tunnel_name sys a w)) \<subseteq> set ascii_lowercase)"
proof -
  have letters: "ascii_lowercase \<noteq> []" by (simp add: ascii_lowercase_def)
  show ?thesis
    using random_choices_letters [OF letters, of sys 8 w]
    by (auto simp: choose_tunnel_name_def dest: str_int_inj)
qed

theorem tunnel_naming_witness:
  "fst (choose_tunnel_name machine_sys demo_args machine0) = ''demo-1700000000''
   \<and> fst (choose_tunnel_name machine_sys demo_args machine0)
       \<noteq> fst (choose_tunnel_name machine_sys demo_args (machine0\<lparr>clock := 1700000001\<rparr>))
   \<and> fst (choose_tunnel_name machine_sys (demo_args\<lparr>arg_no_timestamp := True\<rparr>) machine0) = ''demo''
   \<and> length (fst (choose_tunnel_name machine_sys (demo_args\<lparr>arg_tunnel_name := None\<rparr>) machine0)) = 8
   \<and> set (fst (choose_tunnel_name machine_sys (demo_args\<lparr>arg_tunnel_name := None\<rparr>) machine0))
       \<subseteq> set ascii_lowercase"
proof -
  have t0: "py_int (time_time machine_sys machine0) = 1700000000"
    by (simp add: py_int_def machine_sys_def machine0_def)
  have t1: "py_int (time_time machine_sys (machine0\<lparr>clock := 1700000001\<rparr>)) = 1700000001"
    by (simp add: py_int_def machine_sys_def machine0_def)
  have s0: "str_int 1700000000 = ''1700000000''"
    by (simp add: str_int_def str_nat.simps digit_char_def)
  have named: "arg_tunnel_name demo_args = Some ''demo'' \<and> \<not> arg_no_timestamp demo_args"
    by (simp add: demo_args_def)
  have plain: "arg_tunnel_name (demo_args\<lparr>arg_no_timestamp := True\<rparr>) = Some ''demo''
      \<and> arg_no_timestamp (demo_args\<lparr>arg_no_timestamp := True\<rparr>)"
    by (simp add: demo_args_def)
  have unnamed: "arg_tunnel_name (demo_args\<lparr>arg_tunnel_name := None\<rparr>) = None"
    by simp
  have later: "py_int (time_time machine_sys machine0)
      \<noteq> py_int (time_time machine_sys (machine0\<lparr>clock := 1700000001\<rparr>))"
    by (simp add: t0 t1)
  have c1: "fst (choose_tunnel_name machine_sys demo_args machine0) = ''demo-1700000000''"
    using tunnel_naming [of demo_args "''demo''" machine_sys machine0 machine_sys machine0] named
    by (simp add: t0 s0)
  have c2: "fst (choose_tunnel_name machine_sys demo_args machine0)
       \<noteq> fst (choose_tunnel_name machine_sys demo_args (machine0\<lparr>clock := 1700000001\<rparr>))"
    using tunnel_naming [of demo_args "''demo''" machine_sys machine0 machine_sys
        "machine0\<lparr>clock := 1700000001\<rparr>"] named later
    by blast
  have c3: "fst (choose_tunnel_name machine_sys (demo_args\<lparr>arg_no_timestamp := True\<rparr>) machine0)
       = ''demo''"
    using tunnel_naming [of "demo_args\<lparr>arg_no_timestamp := True\<rparr>" "''demo''" machine_sys machine0
        machine_sys machine0] plain
    by blast
  have c4: "length (fst (choose_tunnel_name machine_sys (demo_args\<lparr>arg_tunnel_name := None\<rparr>) machine0)) = 8
   \<and> set (fst (choose_tunnel_name machine_sys (demo_args\<lparr>arg_tunnel_name := None\<rparr>) machine0))
       \<subseteq> set ascii_lowercase"
    using tunnel_naming [of "demo_args\<lparr>arg_tunnel_name := None\<rparr>" "''demo''" machine_sys machine0
        machine_sys machine0] unnamed
    by blast
  from c1 c2 c3 c4 show ?thesis by blast
qed

text \<open>
  The claim as stated promises different names for runs started at different times. Two
  runs started a half second apart, within the same second, get the same name.
\<close>

theorem tunnel_naming_same_second_counterexample:
  "(6800000001 / 4 :: rat) \<noteq> 6800000003 / 4
   \<and> fst (choose_tunnel_name machine_sys demo_args (machine0\<lparr>clock := 6800000001 / 4\<rparr>))
       = ''demo-1700000000''
   \<and> fst (choose_tunnel_name machine_sys demo_args (machine0\<lparr>clock := 6800000003 / 4\<rparr>))
       = ''demo-1700000000''"
proof -
  have seconds: "py_int (6800000001 / 4) = 1700000000 \<and> py_int (6800000003 / 4) = 1700000000"
    by (simp add: py_int_def floor_eq_iff)
  show ?thesis
    by (simp add: choose_tunnel_name_def demo_args_def machine_sys_def machine0_def seconds
          str_int_def str_nat.simps digit_char_def)
qed

section \<open>Properties of domain selection\<close>

text \<open>What the operations on Python values raise is caught by \<^verbatim>\<open>except Exception\<close>.\<close>

lemma py_get_exc: "py_get x k d = Inl e \<Longrightarrow> is_Exception e"
  by (cases x) (auto split: option.splits)

lemma py_getitem_exc: "py_getitem x k = Inl e \<Longrightarrow> is_Exception e"
  by (cases x) (auto split: option.splits)

lemma py_index0_exc: "py_index0 x = Inl e \<Longrightarrow> is_Exception e"
  by (cases x rule: py_index0.cases) auto

lemma py_iter_exc: "py_iter x = Inl e \<Longrightarrow> is_Exception e"
  by (cases x) auto

lemma py_len_exc: "py_len x = Inl e \<Longrightarrow> is_Exception e"
  by (cases x) auto

lemma py_startswith_exc: "py_startswith x p = Inl e \<Longrightarrow> is_Exception e"
  by (cases x) auto

lemmas py_exc =
  py_get_exc py_getitem_exc py_index0_exc py_iter_exc py_len_exc py_startswith_exc

lemmas prog_defs =
  andthen_def lift_def ret_def throw_def try_except_def requests_call_def emit_def
  response_json_def

text \<open>
  Claim C8. When the listing of the account's zones answers 200 with a JSON body whose
  \<open>result\<close> is a non-empty list, the base domain is the name of the first zone; when the
  list is empty (or the body has no \<open>result\<close>), the call does not fail and the base domain
  is the default \<open>trycloudflare.com\<close>.
\<close>

theorem domain_selection:
  assumes "get_headers environ = Inr headers"
    and "fst (http sys
                \<lparr>req_method = GET,
                 req_url = CLOUDFLARE_API_URL @ ''/accounts/'' @ py_str account_id @ ''/zones'',
                 req_headers = headers, req_json = None\<rparr> (world s)) = Resp r"
    and "status_code r = 200"
    and "body r = Some j"
    and "py_get j ''result'' (JList []) = Inr zones"
  shows "(\<forall>z zs name. zones = JList (z # zs) \<and> py_getitem z ''name'' = Inr name \<longrightarrow>
            fst (get_account_domain sys environ account_id debug s) = Inr name)
       \<and> (zones = JList [] \<longrightarrow>
            fst (get_account_domain sys environ account_id debug s)
              = Inr (JStr ''trycloudflare.com''))"
  using assms
  by (auto simp: get_account_domain_def prog_defs Let_def
           split: prod.splits sum.splits option.splits if_splits dest: py_exc)

lemma machine_headers:
  "get_headers (Some ''tok'')
     = Inr [(''Authorization'', ''Bearer tok''), (''Content-Type'', ''application/json'')]"
  by (simp add: get_headers_def get_api_key_def)

lemma machine_http:
  "http machine_sys rq (world (start (machine0\<lparr>pending := rep # reps\<rparr>)))
     = (rep, machine0\<lparr>pending := reps\<rparr>)"
  by (simp add: machine_sys_def start_def machine0_def)

theorem domain_selection_witness:
  "fst (get_account_domain machine_sys (Some ''tok'') (JStr ''acc'') False
          (start (machine0\<lparr>pending := [api_ok (JList [zone1])]\<rparr>)))
     = Inr (JStr ''example.com'')
   \<and> fst (get_account_domain machine_sys (Some ''tok'') (JStr ''acc'') False
          (start (machine0\<lparr>pending := [api_ok (JList [])]\<rparr>)))
     = Inr (JStr ''trycloudflare.com'')"
proof -
  have one: "fst (get_account_domain machine_sys (Some ''tok'') (JStr ''acc'') False
          (start (machine0\<lparr>pending := [api_ok (JList [zone1])]\<rparr>)))
     = Inr (JStr ''example.com'')"
    using domain_selection [OF machine_headers, of machine_sys "JStr ''acc''"
        "start (machine0\<lparr>pending := [api_ok (JList [zone1])]\<rparr>)"
        "\<lparr>status_code = 200,
          body = Some (JDict [(''success'', JBool True), (''result'', JList [zone1])])\<rparr>"
        "JDict [(''success'', JBool True), (''result'', JList [zone1])]" "JList [zone1]" False]
    by (simp add: machine_http api_ok_def zone1_def)
  have none: "fst (get_account_domain machine_sys (Some ''tok'') (JStr ''acc'') False
          (start (machine0\<lparr>pending := [api_ok (JList [])]\<rparr>)))
     = Inr (JStr ''trycloudflare.com'')"
    using domain_selection [OF machine_headers, of machine_sys "JStr ''acc''"
        "start (machine0\<lparr>pending := [api_ok (JList [])]\<rparr>)"
        "\<lparr>status_code = 200,
          body = Some (JDict [(''success'', JBool True), (''result'', JList [])])\<rparr>"
        "JDict [(''success'', JBool True), (''result'', JList [])]" "JList []" False]
    by (simp add: machine_http api_ok_def)
  from one none show ?thesis by blast
qed

text \<open>
  Claim C10, as the code has it. Whatever response the listing of the zones gets,
  \<^verbatim>\<open>get_account_domain\<close> returns a value and raises nothing. It returns the default
  \<open>trycloudflare.com\<close> whenever the status is not 200, the body is not JSON, the zone list is
  empty, or the body does not have the shape that \<^verbatim>\<open>zones[0]["name"]\<close> reads (not an
  object, a \<open>result\<close> that is false or cannot be indexed, a first zone without a name). In
  the remaining case it returns what \<^verbatim>\<open>zones[0]["name"]\<close> reads, as the provider sent it:
  nothing checks that this is a string, or that it is not empty.
\<close>

theorem get_account_domain_total:
  assumes "get_headers environ = Inr headers"
    and "fst (http sys
                \<lparr>req_method = GET,
                 req_url = CLOUDFLARE_API_URL @ ''/accounts/'' @ py_str account_id @ ''/zones'',
                 req_headers = headers, req_json = None\<rparr> (world s)) = Resp r"
  shows "(\<exists>d. fst (get_account_domain sys environ account_id debug s) = Inr d)
       \<and> (status_code r \<noteq> 200 \<or> body r = None \<or>
           (\<exists>j. body r = Some j \<and>
              ((\<exists>e. py_get j ''result'' (JList []) = Inl e) \<or>
               (\<exists>zones. py_get j ''result'' (JList []) = Inr zones \<and>
                  (\<not> truthy zones \<or> (\<exists>e. py_index0 zones = Inl e) \<or>
                   (\<exists>z e. py_index0 zones = Inr z \<and> py_getitem z ''name'' = Inl e)))))
          \<longrightarrow> fst (get_account_domain sys environ account_id debug s)
                = Inr (JStr ''trycloudflare.com''))
       \<and> (\<forall>j zones z name.
             status_code r = 200 \<and> body r = Some j
               \<and> py_get j ''result'' (JList []) = Inr zones \<and> truthy zones
               \<and> py_index0 zones = Inr z \<and> py_getitem z ''name'' = Inr name
             \<longrightarrow> fst (get_account_domain sys environ account_id debug s) = Inr name)"
  using assms
  by (auto simp: get_account_domain_def prog_defs Let_def
           split: prod.splits sum.splits option.splits if_splits dest: py_exc)

theorem get_account_domain_total_witness:
  "fst (get_account_domain machine_sys (Some ''tok'') (JStr ''acc'') False
          (start (machine0\<lparr>pending := [api_error 500]\<rparr>)))
     = Inr (JStr ''trycloudflare.com'')
   \<and> fst (get_account_domain machine_sys (Some ''tok'') (JStr ''acc'') False
          (start (machine0\<lparr>pending := [Resp \<lparr>status_code = 200, body = None\<rparr>]\<rparr>)))
     = Inr (JStr ''trycloudflare.com'')
   \<and> fst (get_account_domain machine_sys (Some ''tok'') (JStr ''acc'') False
          (start (machine0\<lparr>pending := [api_ok (JList [zone1])]\<rparr>)))
     = Inr (JStr ''example.com'')"
proof -
  have refused: "fst (get_account_domain machine_sys (Some ''tok'') (JStr ''acc'') False
          (start (machine0\<lparr>pending := [api_error 500]\<rparr>)))
     = Inr (JStr ''trycloudflare.com'')"
    using get_account_domain_total [OF machine_headers, of machine_sys "JStr ''acc''"
        "start (machine0\<lparr>pending := [api_error 500]\<rparr>)"
        "\<lparr>status_code = 500, body = Some (JDict [(''success'', JBool False)])\<rparr>" False]
    by (simp add: machine_http api_error_def)
  have garbled: "fst (get_account_domain machine_sys (Some ''tok'') (JStr ''acc'') False
          (start (machine0\<lparr>pending := [Resp \<lparr>status_code = 200, body = None\<rparr>]\<rparr>)))
     = Inr (JStr ''trycloudflare.com'')"
    using get_account_domain_total [OF machine_headers, of machine_sys "JStr ''acc''"
        "start (machine0\<lparr>pending := [Resp \<lparr>status_code = 200, body = None\<rparr>]\<rparr>)"
        "\<lparr>status_code = 200, body = None\<rparr>" False]
    by (simp add: machine_http)
  have named: "fst (get_account_domain machine_sys (Some ''tok'') (JStr ''acc'') False
          (start (machine0\<lparr>pending := [api_ok (JList [zone1])]\<rparr>)))
     = Inr (JStr ''example.com'')"
    using get_account_domain_total [OF machine_headers, of machine_sys "JStr ''acc''"
        "start (machine0\<lparr>pending := [api_ok (JList [zone1])]\<rparr>)"
        "\<lparr>status_code = 200,
          body = Some (JDict [(''success'', JBool True), (''result'', JList [zone1])])\<rparr>" False]
    by (simp add: machine_http api_ok_def zone1_def)
  from refused garbled named show ?thesis by blast
qed

text \<open>
  The claim as stated has a non-empty domain string returned for every response. A listing
  answered with 200 whose first zone has the empty string as its name, or \<open>null\<close>, gives
  exactly that back: the empty string, or a value that is no string.
\<close>

theorem get_account_domain_empty_name_counterexample:
  "fst (get_account_domain machine_sys (Some ''tok'') (JStr ''acc'') False
          (start (machine0\<lparr>pending :=
             [api_ok (JList [JDict [(''id'', JStr ''z1''), (''name'', JStr [])]])]\<rparr>)))
     = Inr (JStr [])
   \<and> fst (get_account_domain machine_sys (Some ''tok'') (JStr ''acc'') False
          (start (machine0\<lparr>pending :=
             [api_ok (JList [JDict [(''id'', JStr ''z1''), (''name'', JNull)]])]\<rparr>)))
     = Inr JNull"
  by (simp add: get_account_domain_def prog_defs Let_def machine_http machine_headers api_ok_def)

section \<open>Properties of the tunnel configuration\<close>

lemma requests_at_simps [simp]:
  "requests_at l [] = []"
  "requests_at l (EHttp l' rq rep # tr) = (if l' = l then rq # requests_at l tr else requests_at l tr)"
  "requests_at l (EWrite p c # tr) = requests_at l tr"
  "requests_at l (ERemove p # tr) = requests_at l tr"
  "requests_at l (EPopen cmd # tr) = requests_at l tr"
  "requests_at l (ETerminate # tr) = requests_at l tr"
  by (simp_all add: requests_at_def List.map_filter_simps)

lemma requests_at_append [simp]:
  "requests_at l (tr @ tr') = requests_at l tr @ requests_at l tr'"
  by (simp add: requests_at_def List.map_filter_def)

lemma new_events_append: "trace s' = trace s @ evs \<Longrightarrow> new_events s s' = evs"
  by (simp add: new_events_def)

text \<open>How a sequence of two steps ends: in the first, or after it in the second.\<close>

lemma andthen_cases:
  assumes "andthen m f s = (r, s')"
  obtains (raised) e where "m s = (Inl e, s')" and "r = Inl e"
        | (went_on) a s1 where "m s = (Inr a, s1)" and "f a s1 = (r, s')"
  using assms by (auto simp: andthen_def split: prod.splits sum.splits)

text \<open>What each step of the configuration adds to the trace.\<close>

lemma requests_call_trace:
  assumes "requests_call sys l m url hs js s = (r, s')"
  shows "\<exists>rep. trace s' = trace s
             @ [EHttp l \<lparr>req_method = m, req_url = url, req_headers = hs, req_json = js\<rparr> rep]
           \<and> r = (case rep of NetworkError \<Rightarrow> Inl RequestException | Resp x \<Rightarrow> Inr x)
           \<and> atexit s' = atexit s \<and> sigint s' = sigint s"
  using assms by (auto simp: requests_call_def emit_def Let_def split: prod.splits)

lemma get_account_domain_trace:
  assumes "get_account_domain sys environ account_id debug s = (r, s')"
  shows "atexit s' = atexit s \<and> sigint s' = sigint s
       \<and> (trace s' = trace s \<or> (\<exists>rq rep. trace s' = trace s @ [EHttp ListZones rq rep]))"
  using assms
  by (auto simp: get_account_domain_def prog_defs Let_def
           split: prod.splits sum.splits option.splits if_splits reply.splits)

lemma create_dns_record_trace:
  assumes "create_dns_record sys headers tunnel_id tunnel_name s = (r, s')"
  shows "r = Inr () \<and> atexit s' = atexit s \<and> sigint s' = sigint s
       \<and> (\<exists>rep. trace s' = trace s
             @ [EHttp CreateDns
                  \<lparr>req_method = POST,
                   req_url = CLOUDFLARE_API_URL @ ''/zones/'' @ hardcoded_zone_id @ ''/dns_records'',
                   req_headers = headers,
                   req_json = Some (dns_data tunnel_id tunnel_name)\<rparr> rep])"
  using assms
  by (auto simp: create_dns_record_def prog_defs Let_def split: prod.splits reply.splits)

text \<open>
  The ways \<^verbatim>\<open>create_tunnel_config\<close> can end: before the configuration is sent (with the
  zones listed or not), on a network error of the configuration request, or after the DNS
  request with the hostname.
\<close>

lemma create_tunnel_config_outcomes:
  assumes "create_tunnel_config sys environ account_id tunnel_id tunnel_name port local_addr
             custom_domain debug s = (r, s')"
  shows "atexit s' = atexit s \<and> sigint s' = sigint s \<and>
    (\<exists>pre. (pre = [] \<or> (\<exists>rq rep. pre = [EHttp ListZones rq rep])) \<and>
      ((trace s' = trace s @ pre \<and> (\<exists>e. r = Inl e))
       \<or> (\<exists>domain headers url.
             trace s' = trace s @ pre
               @ [EHttp PutConfig
                    \<lparr>req_method = PUT, req_url = url, req_headers = headers,
                     req_json = Some (config_data (tunnel_name @ ''.'' @ py_str domain)
                                        local_addr port)\<rparr> NetworkError]
             \<and> (\<exists>e. r = Inl e))
       \<or> (\<exists>domain headers url x rep.
             trace s' = trace s @ pre
               @ [EHttp PutConfig
                    \<lparr>req_method = PUT, req_url = url, req_headers = headers,
                     req_json = Some (config_data (tunnel_name @ ''.'' @ py_str domain)
                                        local_addr port)\<rparr> (Resp x),
                  EHttp CreateDns
                    \<lparr>req_method = POST,
                     req_url = CLOUDFLARE_API_URL @ ''/zones/'' @ hardcoded_zone_id
                                 @ ''/dns_records'',
                     req_headers = headers,
                     req_json = Some (dns_data tunnel_id tunnel_name)\<rparr> rep]
             \<and> r = Inr (tunnel_name @ ''.'' @ py_str domain))))"
proof -
  from assms [unfolded create_tunnel_config_def] show ?thesis
  proof (cases rule: andthen_cases)
    case (raised e)
    from get_account_domain_trace [OF raised(1)] raised(2) show ?thesis by auto
  next
    case (went_on domain s1)
    note zones = get_account_domain_trace [OF went_on(1)]
    from went_on(2) show ?thesis
    proof (cases rule: andthen_cases)
      case (raised e)
      then have "s' = s1" by (simp add: lift_def)
      with zones raised(2) show ?thesis by auto
    next
      case (went_on headers s2)
      then have s2: "s2 = s1" by (simp add: lift_def)
      from went_on(2) show ?thesis
      proof (cases rule: andthen_cases)
        case (raised e)
        from requests_call_trace [OF raised(1) [unfolded put_ingress_config_def]] raised(2)
        obtain rep where put: "trace s' = trace s2
             @ [EHttp PutConfig \<lparr>req_method = PUT,
                  req_url = CLOUDFLARE_API_URL @ ''/accounts/'' @ py_str account_id
                     @ ''/cfd_tunnel/'' @ py_str tunnel_id @ ''/configurations'',
                  req_headers = headers,
                  req_json = Some (config_data (tunnel_name @ ''.'' @ py_str domain)
                                     local_addr port)\<rparr> rep]"
          and rep: "Inl e = (case rep of NetworkError \<Rightarrow> Inl RequestException | Resp x \<Rightarrow> Inr x)"
          and same: "atexit s' = atexit s2 \<and> sigint s' = sigint s2"
          by auto
        from rep have "rep = NetworkError" by (cases rep) auto
        with put same s2 zones raised(2) show ?thesis by auto
      next
        case (went_on response s3)
        from requests_call_trace [OF went_on(1) [unfolded put_ingress_config_def]]
        obtain rep where put: "trace s3 = trace s2
             @ [EHttp PutConfig \<lparr>req_method = PUT,
                  req_url = CLOUDFLARE_API_URL @ ''/accounts/'' @ py_str account_id
                     @ ''/cfd_tunnel/'' @ py_str tunnel_id @ ''/configurations'',
                  req_headers = headers,
                  req_json = Some (config_data (tunnel_name @ ''.'' @ py_str domain)
                                     local_addr port)\<rparr> rep]"
          and rep: "Inr response = (case rep of NetworkError \<Rightarrow> Inl RequestException | Resp x \<Rightarrow> Inr x)"
          and same: "atexit s3 = atexit s2 \<and> sigint s3 = sigint s2"
          by auto
        from rep have rep': "rep = Resp response" by (cases rep) auto
        from went_on(2) show ?thesis
        proof (cases rule: andthen_cases)
          case (raised e)
          from create_dns_record_trace [OF raised(1)] show ?thesis by simp
        next
          case (went_on u s4)
          from create_dns_record_trace [OF went_on(1)]
          obtain rep2 where dns: "trace s4 = trace s3
             @ [EHttp CreateDns
                  \<lparr>req_method = POST,
                   req_url = CLOUDFLARE_API_URL @ ''/zones/'' @ hardcoded_zone_id @ ''/dns_records'',
                   req_headers = headers,
                   req_json = Some (dns_data tunnel_id tunnel_name)\<rparr> rep2]"
            and same4: "atexit s4 = atexit s3 \<and> sigint s4 = sigint s3"
            by auto
          from went_on(2) have fin: "s' = s4 \<and> r = Inr (tunnel_name @ ''.'' @ py_str domain)"
            by (auto simp: ret_def)
          with dns same4 put rep' same s2 zones show ?thesis by auto
        qed
      qed
    qed
  qed
qed

text \<open>The same, read as the configuration and DNS requests the call has sent.\<close>

lemma quiet_prefix:
  assumes pre: "pre = [] \<or> (\<exists>rq rep. pre = [EHttp ListZones rq rep])"
    and t: "trace s' = trace s @ pre @ evs"
  shows "requests_at PutConfig (new_events s s') = requests_at PutConfig evs
       \<and> requests_at CreateDns (new_events s s') = requests_at CreateDns evs"
  using pre new_events_append [OF t] by auto

lemma create_tunnel_config_requests:
  assumes "create_tunnel_config sys environ account_id tunnel_id tunnel_name port local_addr
             custom_domain debug s = (r, s')"
  shows "\<exists>domain headers url.
    (requests_at PutConfig (new_events s s') = []
       \<or> requests_at PutConfig (new_events s s')
            = [\<lparr>req_method = PUT, req_url = url, req_headers = headers,
                req_json = Some (config_data (tunnel_name @ ''.'' @ py_str domain)
                                   local_addr port)\<rparr>])
    \<and> (requests_at CreateDns (new_events s s') = []
       \<or> requests_at CreateDns (new_events s s')
            = [\<lparr>req_method = POST,
                req_url = CLOUDFLARE_API_URL @ ''/zones/'' @ hardcoded_zone_id @ ''/dns_records'',
                req_headers = headers,
                req_json = Some (dns_data tunnel_id tunnel_name)\<rparr>])
    \<and> (case r of
          Inl e \<Rightarrow> requests_at CreateDns (new_events s s') = []
        | Inr h \<Rightarrow> h = tunnel_name @ ''.'' @ py_str domain
            \<and> requests_at PutConfig (new_events s s') \<noteq> []
            \<and> requests_at CreateDns (new_events s s') \<noteq> [])"
proof -
  from create_tunnel_config_outcomes [OF assms]
  obtain pre where pre: "pre = [] \<or> (\<exists>rq rep. pre = [EHttp ListZones rq rep])"
    and ends: "(trace s' = trace s @ pre \<and> (\<exists>e. r = Inl e))
       \<or> (\<exists>domain headers url.
             trace s' = trace s @ pre
               @ [EHttp PutConfig
                    \<lparr>req_method = PUT, req_url = url, req_headers = headers,
                     req_json = Some (config_data (tunnel_name @ ''.'' @ py_str domain)
                                        local_addr port)\<rparr> NetworkError]
             \<and> (\<exists>e. r = Inl e))
       \<or> (\<exists>domain headers url x rep.
             trace s' = trace s @ pre
               @ [EHttp PutConfig
                    \<lparr>req_method = PUT, req_url = url, req_headers = headers,
                     req_json = Some (config_data (tunnel_name @ ''.'' @ py_str domain)
                                        local_addr port)\<rparr> (Resp x),
                  EHttp CreateDns
                    \<lparr>req_method = POST,
                     req_url = CLOUDFLARE_API_URL @ ''/zones/'' @ hardcoded_zone_id
                                 @ ''/dns_records'',
                     req_headers = headers,
                     req_json = Some (dns_data tunnel_id tunnel_name)\<rparr> rep]
             \<and> r = Inr (tunnel_name @ ''.'' @ py_str domain))"
    by (elim conjE exE) (rule that)
  from ends show ?thesis
  proof (elim disjE exE conjE)
    fix e
    assume t: "trace s' = trace s @ pre" and r: "r = Inl e"
    from t have t': "trace s' = trace s @ pre @ []" by simp
    from quiet_prefix [OF pre t'] r show ?thesis by simp
  next
    fix domain headers url e
    assume t: "trace s' = trace s @ pre
               @ [EHttp PutConfig
                    \<lparr>req_method = PUT, req_url = url, req_headers = headers,
                     req_json = Some (config_data (tunnel_name @ ''.'' @ py_str domain)
                                        local_addr port)\<rparr> NetworkError]"
      and r: "r = Inl e"
    from quiet_prefix [OF pre t] r show ?thesis
      by (intro exI [of _ domain] exI [of _ headers] exI [of _ url]) simp
  next
    fix domain headers url x rep
    assume t: "trace s' = trace s @ pre
               @ [EHttp PutConfig
                    \<lparr>req_method = PUT, req_url = url, req_headers = headers,
                     req_json = Some (config_data (tunnel_name @ ''.'' @ py_str domain)
                                        local_addr port)\<rparr> (Resp x),
                  EHttp CreateDns
                    \<lparr>req_method = POST,
                     req_url = CLOUDFLARE_API_URL @ ''/zones/'' @ hardcoded_zone_id
                                 @ ''/dns_records'',
                     req_headers = headers,
                     req_json = Some (dns_data tunnel_id tunnel_name)\<rparr> rep]"
      and r: "r = Inr (tunnel_name @ ''.'' @ py_str domain)"
    from quiet_prefix [OF pre t] r show ?thesis
      by (intro exI [of _ domain] exI [of _ headers] exI [of _ url]) simp
  qed
qed

lemma demo_config_eval:
  "fst demo_config_run = Inr ''demo.example.com''
   \<and> map req_json (requests_at PutConfig (trace (snd demo_config_run)))
       = [Some (JDict [(''config'',
            JDict [(''ingress'',
              JList [JDict [(''hostname'', JStr ''demo.example.com''),
                            (''service'', JStr ''http://localhost:8080'')],
                     JDict [(''service'', JStr ''http_status:404'')]])])])]
   \<and> map req_json (requests_at CreateDns (trace (snd demo_config_run)))
       = [Some (JDict [(''type'', JStr ''CNAME''), (''name'', JStr ''demo''),
                       (''content'', JStr ''tid.cfargotunnel.com''), (''ttl'', JInt 1),
                       (''proxied'', JBool True)])]"
  by (simp add: demo_config_run_def create_tunnel_config_def get_account_domain_def
        put_ingress_config_def create_dns_record_def prog_defs machine_sys_def start_def
        machine0_def config_replies_def api_ok_def zone1_def get_headers_def get_api_key_def
        config_data_def dns_data_def str_int_def str_nat.simps digit_char_def Let_def)

lemma new_events_start [simp]: "new_events (start m) s' = trace s'"
  by (simp add: new_events_def start_def)

lemma demo_config_run_eq:
  "create_tunnel_config machine_sys (Some ''tok'') (JStr ''acc'') (JStr ''tid'') ''demo'' 8080
     ''localhost'' None False (start (machine0\<lparr>pending := config_replies\<rparr>))
   = (fst demo_config_run, snd demo_config_run)"
  by (simp add: demo_config_run_def)

text \<open>
  Claim C9. Every ingress configuration \<^verbatim>\<open>create_tunnel_config\<close> sends has exactly two
  rules: the first maps the public hostname \<open>tunnel_name.domain\<close>, the hostname the call
  returns, to \<open>http://local_addr:port\<close>, the last is the catch-all \<open>http_status:404\<close>. A
  call that returns has sent exactly one configuration.
\<close>

theorem ingress_two_rules:
  assumes "create_tunnel_config sys environ account_id tunnel_id tunnel_name port local_addr
             custom_domain debug s = (r, s')"
  shows "(\<forall>rq \<in> set (requests_at PutConfig (new_events s s')).
            \<exists>hostname domain.
              hostname = tunnel_name @ ''.'' @ py_str domain
              \<and> req_method rq = PUT
              \<and> req_json rq =
                  Some (JDict [(''config'',
                    JDict [(''ingress'',
                      JList [JDict [(''hostname'', JStr hostname),
                                    (''service'',
                                     JStr (''http://'' @ local_addr @ '':'' @ str_int port))],
                             JDict [(''service'', JStr ''http_status:404'')]])])])
              \<and> (\<forall>h. r = Inr h \<longrightarrow> h = hostname))
       \<and> (\<forall>h. r = Inr h \<longrightarrow> length (requests_at PutConfig (new_events s s')) = 1)"
proof -
  from create_tunnel_config_requests [OF assms]
  obtain domain headers url where
    put: "requests_at PutConfig (new_events s s') = []
       \<or> requests_at PutConfig (new_events s s')
            = [\<lparr>req_method = PUT, req_url = url, req_headers = headers,
                req_json = Some (config_data (tunnel_name @ ''.'' @ py_str domain)
                                   local_addr port)\<rparr>]"
    and res: "case r of
          Inl e \<Rightarrow> requests_at CreateDns (new_events s s') = []
        | Inr h \<Rightarrow> h = tunnel_name @ ''.'' @ py_str domain
            \<and> requests_at PutConfig (new_events s s') \<noteq> []
            \<and> requests_at CreateDns (new_events s s') \<noteq> []"
    by (elim exE conjE) (rule that)
  from put show ?thesis
  proof
    assume "requests_at PutConfig (new_events s s') = []"
    with res show ?thesis by (cases r) simp_all
  next
    assume one: "requests_at PutConfig (new_events s s')
            = [\<lparr>req_method = PUT, req_url = url, req_headers = headers,
                req_json = Some (config_data (tunnel_name @ ''.'' @ py_str domain)
                                   local_addr port)\<rparr>]"
    have returned: "\<forall>h. r = Inr h \<longrightarrow> h = tunnel_name @ ''.'' @ py_str domain"
      using res by (cases r) simp_all
    show ?thesis
      unfolding one using returned
      by (simp add: config_data_def) (rule exI [of _ domain], simp)
  qed
qed

theorem ingress_two_rules_witness:
  "fst demo_config_run = Inr ''demo.example.com''
   \<and> length (requests_at PutConfig (trace (snd demo_config_run))) = 1
   \<and> map req_json (requests_at PutConfig (trace (snd demo_config_run)))
       = [Some (JDict [(''config'',
            JDict [(''ingress'',
              JList [JDict [(''hostname'', JStr ''demo.example.com''),
                            (''service'', JStr ''http://localhost:8080'')],
                     JDict [(''service'', JStr ''http_status:404'')]])])])]"
  using ingress_two_rules [OF demo_config_run_eq] demo_config_eval
  by simp

text \<open>
  Claim C2, as the code has it. The request that creates the DNS record goes to the zone
  whose id is written in the source, with \<open>type = CNAME\<close>, \<open>proxied = true\<close>, \<open>ttl = 1\<close>
  (automatic), the target \<open>tunnel_id.cfargotunnel.com\<close>, and as name the tunnel name alone,
  not the hostname \<open>tunnel_name.domain\<close> that the call returns. A call sends at most one
  such request, and exactly one when it returns.
\<close>

theorem dns_record_request:
  assumes "create_tunnel_config sys environ account_id tunnel_id tunnel_name port local_addr
             custom_domain debug s = (r, s')"
  shows "(\<forall>rq \<in> set (requests_at CreateDns (new_events s s')).
            req_method rq = POST
            \<and> req_url rq = CLOUDFLARE_API_URL @ ''/zones/'' @ hardcoded_zone_id @ ''/dns_records''
            \<and> req_json rq =
                Some (JDict [(''type'', JStr ''CNAME''),
                             (''name'', JStr tunnel_name),
                             (''content'', JStr (py_str tunnel_id @ ''.cfargotunnel.com'')),
                             (''ttl'', JInt 1),
                             (''proxied'', JBool True)]))
       \<and> length (requests_at CreateDns (new_events s s')) \<le> 1
       \<and> (\<forall>h. r = Inr h \<longrightarrow>
            length (requests_at CreateDns (new_events s s')) = 1
            \<and> (\<exists>domain. h = tunnel_name @ ''.'' @ py_str domain))"
proof -
  from create_tunnel_config_requests [OF assms]
  obtain domain headers url where
    dns: "requests_at CreateDns (new_events s s') = []
       \<or> requests_at CreateDns (new_events s s')
            = [\<lparr>req_method = POST,
                req_url = CLOUDFLARE_API_URL @ ''/zones/'' @ hardcoded_zone_id @ ''/dns_records'',
                req_headers = headers,
                req_json = Some (dns_data tunnel_id tunnel_name)\<rparr>]"
    and res: "case r of
          Inl e \<Rightarrow> requests_at CreateDns (new_events s s') = []
        | Inr h \<Rightarrow> h = tunnel_name @ ''.'' @ py_str domain
            \<and> requests_at PutConfig (new_events s s') \<noteq> []
            \<and> requests_at CreateDns (new_events s s') \<noteq> []"
    by (elim exE conjE) (rule that)
  from dns show ?thesis
  proof
    assume "requests_at CreateDns (new_events s s') = []"
    with res show ?thesis by (cases r) simp_all
  next
    assume one: "requests_at CreateDns (new_events s s')
            = [\<lparr>req_method = POST,
                req_url = CLOUDFLARE_API_URL @ ''/zones/'' @ hardcoded_zone_id @ ''/dns_records'',
                req_headers = headers,
                req_json = Some (dns_data tunnel_id tunnel_name)\<rparr>]"
    have returned: "\<forall>h. r = Inr h \<longrightarrow> (\<exists>domain. h = tunnel_name @ ''.'' @ py_str domain)"
      using res by (cases r) auto
    show ?thesis
      unfolding one using returned by (simp add: dns_data_def)
  qed
qed

theorem dns_record_request_witness:
  "fst demo_config_run = Inr ''demo.example.com''
   \<and> length (requests_at CreateDns (trace (snd demo_config_run))) = 1"
  using dns_record_request [OF demo_config_run_eq] demo_config_eval
  by simp

text \<open>
  The claim as stated wants the record's name to be the public hostname. For the tunnel
  \<open>demo\<close> in an account whose first zone is \<open>example.com\<close> the hostname returned (and
  printed as the public URL) is \<open>demo.example.com\<close>, and the name sent is \<open>demo\<close>.
\<close>

theorem dns_record_name_counterexample:
  "fst demo_config_run = Inr ''demo.example.com''
   \<and> map req_json (requests_at CreateDns (trace (snd demo_config_run)))
       = [Some (JDict [(''type'', JStr ''CNAME''), (''name'', JStr ''demo''),
                       (''content'', JStr ''tid.cfargotunnel.com''), (''ttl'', JInt 1),
                       (''proxied'', JBool True)])]
   \<and> ''demo'' \<noteq> ''demo.example.com''"
  using demo_config_eval by simp

section \<open>Properties of teardown\<close>

lemma zone_run_refl: "zone_run s n s n"
  by (simp add: zone_run_def deleted_count_def)

lemma zone_run_trans:
  assumes "zone_run s n s1 n1" and "zone_run s1 n1 s2 n2"
  shows "zone_run s n s2 n2"
proof -
  from assms(1) obtain evs where a: "trace s1 = trace s @ evs" "list_all zone_event evs"
      "n1 = n + deleted_count evs" "atexit s1 = atexit s" "sigint s1 = sigint s"
    by (auto simp: zone_run_def)
  from assms(2) obtain evs' where b: "trace s2 = trace s1 @ evs'" "list_all zone_event evs'"
      "n2 = n1 + deleted_count evs'" "atexit s2 = atexit s1" "sigint s2 = sigint s1"
    by (auto simp: zone_run_def)
  have "trace s2 = trace s @ (evs @ evs')" using a b by simp
  moreover have "list_all zone_event (evs @ evs')" using a b by simp
  moreover have "n2 = n + deleted_count (evs @ evs')" using a b by (simp add: deleted_count_def)
  ultimately show ?thesis using a b unfolding zone_run_def by metis
qed

lemma zone_run_listing:
  assumes "requests_call sys l m url hs js s = (r, s')" and "zone_site l"
    and "\<And>z i. l \<noteq> DeleteDns z i"
  shows "zone_run s n s' n"
proof -
  from requests_call_trace [OF assms(1)] obtain rep where
    t: "trace s' = trace s @ [EHttp l \<lparr>req_method = m, req_url = url, req_headers = hs, req_json = js\<rparr> rep]"
    and h: "atexit s' = atexit s \<and> sigint s' = sigint s" by blast
  have "\<not> dns_deleted (EHttp l \<lparr>req_method = m, req_url = url, req_headers = hs, req_json = js\<rparr> rep)"
    using assms(3) by (cases l; cases rep) auto
  with t h assms(2) show ?thesis
    unfolding zone_run_def deleted_count_def by (intro conjI exI [of _ "[EHttp l \<lparr>req_method = m, req_url = url, req_headers = hs, req_json = js\<rparr> rep]"]) simp_all
qed

lemma zone_run_delete:
  assumes "requests_call sys (DeleteDns z i) m url hs js s = (r, s')"
  shows "zone_run s n s' (case r of Inr x \<Rightarrow> if status_code x = 200 then n + 1 else n | Inl e \<Rightarrow> n)"
proof -
  from requests_call_trace [OF assms(1)] obtain rep where
    t: "trace s' = trace s @ [EHttp (DeleteDns z i) \<lparr>req_method = m, req_url = url, req_headers = hs, req_json = js\<rparr> rep]"
    and r: "r = (case rep of NetworkError \<Rightarrow> Inl RequestException | Resp x \<Rightarrow> Inr x)"
    and h: "atexit s' = atexit s \<and> sigint s' = sigint s" by blast
  show ?thesis
    unfolding zone_run_def deleted_count_def using t r h
    by (intro conjI exI [of _ "[EHttp (DeleteDns z i) \<lparr>req_method = m, req_url = url, req_headers = hs, req_json = js\<rparr> rep]"])
       (cases rep; simp)+
qed

lemma delete_listed_run:
  "delete_listed sys headers zid records n s = ((raised, n'), s') \<Longrightarrow> zone_run s n s' n'"
proof (induction records arbitrary: n s)
  case Nil
  then show ?case by (simp add: zone_run_refl)
next
  case (Cons item rest)
  show ?case
  proof (cases "py_getitem item ''id''")
    case (Inl e)
    with Cons.prems show ?thesis by (simp add: zone_run_refl)
  next
    case (Inr dns_id)
    show ?thesis
    proof (cases "py_get item ''name'' (JStr ''unknown'')")
      case (Inl e)
      with Cons.prems Inr show ?thesis by (simp add: zone_run_refl)
    next
      case name: (Inr record_name)
      obtain r s1 where call: "requests_call sys (DeleteDns zid dns_id) DELETE
          (dns_record_url zid dns_id) headers None s = (r, s1)"
        by (cases "requests_call sys (DeleteDns zid dns_id) DELETE
          (dns_record_url zid dns_id) headers None s")
      note step = zone_run_delete [OF call, of n]
      show ?thesis
      proof (cases r)
        case (Inl e)
        with Cons.prems Inr name call step show ?thesis by simp
      next
        case resp: (Inr x)
        with Cons.prems Inr name call
        have "delete_listed sys headers zid rest (if status_code x = 200 then n + 1 else n) s1
                = ((raised, n'), s')" by simp
        from Cons.IH [OF this] step resp show ?thesis
          by (auto intro: zone_run_trans)
      qed
    qed
  qed
qed

lemma delete_matching_run:
  "delete_matching sys headers zid tunnel_name records n s = ((raised, n'), s')
     \<Longrightarrow> zone_run s n s' n'"
proof (induction records arbitrary: n s)
  case Nil
  then show ?case by (simp add: zone_run_refl)
next
  case (Cons item rest)
  show ?case
  proof (cases "py_get item ''name'' (JStr [])")
    case (Inl e)
    with Cons.prems show ?thesis by (simp add: zone_run_refl)
  next
    case name: (Inr record_name)
    show ?thesis
    proof (cases "name_matches record_name tunnel_name")
      case (Inl e)
      with Cons.prems name show ?thesis by (simp add: zone_run_refl)
    next
      case m: (Inr b)
      show ?thesis
      proof (cases b)
        case False
        with Cons.prems name m
        have "delete_matching sys headers zid tunnel_name rest n s = ((raised, n'), s')" by simp
        from Cons.IH [OF this] show ?thesis .
      next
        case True
        show ?thesis
        proof (cases "py_getitem item ''id''")
          case (Inl e)
          with Cons.prems name m True show ?thesis by (simp add: zone_run_refl)
        next
          case (Inr dns_id)
          obtain r s1 where call: "requests_call sys (DeleteDns zid dns_id) DELETE
              (dns_record_url zid dns_id) headers None s = (r, s1)"
            by (cases "requests_call sys (DeleteDns zid dns_id) DELETE
              (dns_record_url zid dns_id) headers None s")
          note step = zone_run_delete [OF call, of n]
          show ?thesis
          proof (cases r)
            case (Inl e)
            with Cons.prems name m True Inr call step show ?thesis by simp
          next
            case resp: (Inr x)
            with Cons.prems name m True Inr call
            have "delete_matching sys headers zid tunnel_name rest
                    (if status_code x = 200 then n + 1 else n) s1 = ((raised, n'), s')" by simp
            from Cons.IH [OF this] step resp show ?thesis
              by (auto intro: zone_run_trans)
          qed
        qed
      qed
    qed
  qed
qed
lemma listing_by_name_run:
  "requests_call sys (ListDnsByName z) m url hs js s = (r, s') \<Longrightarrow> zone_run s n s' n"
  by (erule zone_run_listing) simp_all

lemma listing_all_run:
  "requests_call sys (ListDnsAll z) m url hs js s = (r, s') \<Longrightarrow> zone_run s n s' n"
  by (erule zone_run_listing) simp_all

lemma teardown_zones_run:
  "requests_call sys TeardownZones m url hs js s = (r, s') \<Longrightarrow> zone_run s n s' n"
  by (erule zone_run_listing) simp_all

lemma exact_pass_run:
  assumes "exact_pass sys headers zid tunnel_name n s = ((raised, n'), s')"
  shows "zone_run s n s' n'"
proof -
  obtain r s1 where call: "requests_call sys (ListDnsByName zid) GET
      (CLOUDFLARE_API_URL @ ''/zones/'' @ py_str zid @ ''/dns_records?name='' @ tunnel_name)
      headers None s = (r, s1)"
    by (cases "requests_call sys (ListDnsByName zid) GET
      (CLOUDFLARE_API_URL @ ''/zones/'' @ py_str zid @ ''/dns_records?name='' @ tunnel_name)
      headers None s")
  note first = listing_by_name_run [OF call, of n]
  from assms call consider (stop) "s' = s1" "n' = n"
    | (loop) records where "delete_listed sys headers zid records n s1 = ((raised, n'), s')"
    by (auto simp: exact_pass_def split: sum.splits if_splits)
  then show ?thesis
  proof cases
    case stop
    with first show ?thesis by simp
  next
    case loop
    from zone_run_trans [OF first delete_listed_run [OF loop]] show ?thesis .
  qed
qed

lemma prefix_pass_run:
  assumes "prefix_pass sys headers zid tunnel_name n s = ((raised, n'), s')"
  shows "zone_run s n s' n'"
proof -
  obtain r s1 where call: "requests_call sys (ListDnsAll zid) GET
      (CLOUDFLARE_API_URL @ ''/zones/'' @ py_str zid @ ''/dns_records'') headers None s = (r, s1)"
    by (cases "requests_call sys (ListDnsAll zid) GET
      (CLOUDFLARE_API_URL @ ''/zones/'' @ py_str zid @ ''/dns_records'') headers None s")
  note first = listing_all_run [OF call, of n]
  from assms call consider (stop) "s' = s1" "n' = n"
    | (loop) records where
        "delete_matching sys headers zid tunnel_name records n s1 = ((raised, n'), s')"
    by (auto simp: prefix_pass_def split: sum.splits if_splits)
  then show ?thesis
  proof cases
    case stop
    with first show ?thesis by simp
  next
    case loop
    from zone_run_trans [OF first delete_matching_run [OF loop]] show ?thesis .
  qed
qed

lemma zone_try_block_run:
  assumes "zone_try_block sys headers zid tunnel_name n s = ((raised, n'), s')"
  shows "zone_run s n s' n'"
proof -
  obtain e1 n1 s1 where first: "exact_pass sys headers zid tunnel_name n s = ((e1, n1), s1)"
    by (cases "exact_pass sys headers zid tunnel_name n s") auto
  note one = exact_pass_run [OF first]
  from assms first consider (stop) "s' = s1" "n' = n1"
    | (second) "prefix_pass sys headers zid tunnel_name n1 s1 = ((raised, n'), s')"
    by (auto simp: zone_try_block_def split: option.splits if_splits)
  then show ?thesis
  proof cases
    case stop
    with one show ?thesis by simp
  next
    case second
    from zone_run_trans [OF one prefix_pass_run [OF second]] show ?thesis .
  qed
qed

lemma zones_loop_run:
  "zones_loop sys headers tunnel_name zones n s = (r, s')
     \<Longrightarrow> \<exists>n'. zone_run s n s' n' \<and> (\<forall>m. r = Inr m \<longrightarrow> m = n')"
proof (induction zones arbitrary: n s)
  case Nil
  then show ?case by (auto intro: zone_run_refl)
next
  case (Cons zone rest)
  show ?case
  proof (cases "py_getitem zone ''id''")
    case (Inl e)
    with Cons.prems show ?thesis by (auto intro: zone_run_refl)
  next
    case (Inr zid)
    show ?thesis
    proof (cases "py_get zone ''name'' (JStr ''unknown'')")
      case (Inl e)
      with Cons.prems Inr show ?thesis by (auto intro: zone_run_refl)
    next
      case name: (Inr zone_name)
      obtain e1 n1 s1 where block: "zone_try_block sys headers zid tunnel_name n s = ((e1, n1), s1)"
        by (cases "zone_try_block sys headers zid tunnel_name n s") auto
      note one = zone_try_block_run [OF block]
      from Cons.prems Inr name block consider (stop) e where "s' = s1" "r = Inl e"
        | (next_zone) "zones_loop sys headers tunnel_name rest n1 s1 = (r, s')"
        by (auto split: option.splits if_splits)
      then show ?thesis
      proof cases
        case stop
        with one show ?thesis by auto
      next
        case next_zone
        from Cons.IH [OF next_zone] obtain n' where
          "zone_run s1 n1 s' n'" "\<forall>m. r = Inr m \<longrightarrow> m = n'" by blast
        with zone_run_trans [OF one] show ?thesis by blast
      qed
    qed
  qed
qed

lemma enumerate_zones_run:
  assumes "enumerate_zones sys headers account_id zone_id debug s = (r, s')"
  shows "zone_run s n s' n"
proof -
  obtain r1 s1 where call: "requests_call sys TeardownZones GET
      (CLOUDFLARE_API_URL @ ''/accounts/'' @ py_str account_id @ ''/zones'') headers None s
        = (r1, s1)"
    by (cases "requests_call sys TeardownZones GET
      (CLOUDFLARE_API_URL @ ''/accounts/'' @ py_str account_id @ ''/zones'') headers None s")
  from assms call have "s' = s1"
    by (auto simp: enumerate_zones_def zones_try_block_def
             split: prod.splits sum.splits option.splits if_splits)
  with teardown_zones_run [OF call, of n] show ?thesis by simp
qed

lemma zone_run_events:
  assumes "zone_run s n s' n'"
  obtains evs where "trace s' = trace s @ evs" and "list_all zone_event evs"
    and "n' = n + deleted_count evs" and "atexit s' = atexit s" and "sigint s' = sigint s"
  using assms unfolding zone_run_def by blast

lemma lift_cases:
  assumes "lift v s = (r, s')"
  shows "r = v \<and> s' = s"
  using assms by (simp add: lift_def)

lemma delete_tunnel_step_trace:
  assumes "delete_tunnel_step sys headers account_id tunnel_id s = (r, s')"
  shows "(\<exists>b. r = Inr b) \<and> atexit s' = atexit s \<and> sigint s' = sigint s
       \<and> (\<exists>rq rep. trace s' = trace s @ [EHttp DeleteTunnel rq rep])"
proof -
  obtain r1 s1 where call: "requests_call sys DeleteTunnel DELETE
      (CLOUDFLARE_API_URL @ ''/accounts/'' @ py_str account_id @ ''/cfd_tunnel/''
         @ py_str tunnel_id) headers None s = (r1, s1)"
    by (cases "requests_call sys DeleteTunnel DELETE
      (CLOUDFLARE_API_URL @ ''/accounts/'' @ py_str account_id @ ''/cfd_tunnel/''
         @ py_str tunnel_id) headers None s")
  from requests_call_trace [OF call] obtain rep where
    t: "trace s1 = trace s @ [EHttp DeleteTunnel
          \<lparr>req_method = DELETE,
           req_url = CLOUDFLARE_API_URL @ ''/accounts/'' @ py_str account_id @ ''/cfd_tunnel/''
                       @ py_str tunnel_id,
           req_headers = headers, req_json = None\<rparr> rep]"
    and r1: "r1 = (case rep of NetworkError \<Rightarrow> Inl RequestException | Resp x \<Rightarrow> Inr x)"
    and h: "atexit s1 = atexit s \<and> sigint s1 = sigint s" by blast
  from assms call r1 have "s' = s1 \<and> (\<exists>b. r = Inr b)"
    by (cases rep)
       (auto simp: delete_tunnel_step_def try_except_def andthen_def ret_def)
  with t h show ?thesis by blast
qed

text \<open>
  What \<^verbatim>\<open>delete_tunnel_and_dns\<close> does, whatever the provider answers: it sends requests of
  the loop over the zones, and then, if nothing was raised before, the deletion of the
  tunnel as its last request; it returns the number of record deletions answered with 200.
\<close>

lemma delete_tunnel_and_dns_shape:
  assumes "delete_tunnel_and_dns sys environ account_id tunnel_id tunnel_name zone_id debug s
             = (r, s')"
  shows "atexit s' = atexit s \<and> sigint s' = sigint s
       \<and> (\<exists>evs. list_all zone_event evs
            \<and> (case r of
                  Inr n \<Rightarrow> n = deleted_count evs
                    \<and> (\<exists>rq rep. trace s' = trace s @ evs @ [EHttp DeleteTunnel rq rep])
                | Inl e \<Rightarrow> trace s' = trace s @ evs))"
proof -
  have nothing: "list_all zone_event []" by simp
  from assms [unfolded delete_tunnel_and_dns_def] show ?thesis
  proof (cases rule: andthen_cases)
    case (raised e)
    from lift_cases [OF raised(1)] raised(2) nothing show ?thesis by auto
  next
    case (went_on headers s1)
    from lift_cases [OF went_on(1)] have s1: "s1 = s" by simp
    from went_on(2) show ?thesis
    proof (cases rule: andthen_cases)
      case (raised e)
      from enumerate_zones_run [OF raised(1), of 0] obtain evs where
        "trace s' = trace s1 @ evs" "list_all zone_event evs"
        "atexit s' = atexit s1" "sigint s' = sigint s1"
        by (rule zone_run_events)
      with raised(2) s1 show ?thesis by auto
    next
      case (went_on all_zones s2)
      from enumerate_zones_run [OF went_on(1), of 0] obtain evs where
        e2: "trace s2 = trace s1 @ evs" "list_all zone_event evs"
        "atexit s2 = atexit s1" "sigint s2 = sigint s1" "0 = 0 + deleted_count evs"
        by (rule zone_run_events)
      from went_on(2) show ?thesis
      proof (cases rule: andthen_cases)
        case (raised e)
        from lift_cases [OF raised(1)] raised(2) e2 s1 show ?thesis by auto
      next
        case (went_on zones s3)
        from lift_cases [OF went_on(1)] have s3: "s3 = s2" by simp
        from went_on(2) show ?thesis
        proof (cases rule: andthen_cases)
          case (raised e)
          from zones_loop_run [OF raised(1)] obtain n' where "zone_run s3 0 s' n'" by blast
          then obtain evs' where e3: "trace s' = trace s3 @ evs'" "list_all zone_event evs'"
            "atexit s' = atexit s3" "sigint s' = sigint s3"
            by (rule zone_run_events)
          have "trace s' = trace s @ (evs @ evs')" using e2 e3 s1 s3 by simp
          moreover have "list_all zone_event (evs @ evs')" using e2 e3 by simp
          ultimately show ?thesis using raised(2) e2 e3 s1 s3 by auto
        next
          case (went_on dns_records_deleted s4)
          from zones_loop_run [OF went_on(1)] have "zone_run s3 0 s4 dns_records_deleted"
            by auto
          then obtain evs' where e3: "trace s4 = trace s3 @ evs'" "list_all zone_event evs'"
            "atexit s4 = atexit s3" "sigint s4 = sigint s3"
            "dns_records_deleted = 0 + deleted_count evs'"
            by (rule zone_run_events)
          have t4: "trace s4 = trace s @ (evs @ evs')" using e2 e3 s1 s3 by simp
          have z4: "list_all zone_event (evs @ evs')" using e2 e3 by simp
          have c4: "dns_records_deleted = deleted_count (evs @ evs')"
            using e2 e3 by (simp add: deleted_count_def)
          from went_on(2) show ?thesis
          proof (cases rule: andthen_cases)
            case (raised e)
            from delete_tunnel_step_trace [OF raised(1)] show ?thesis by simp
          next
            case (went_on tunnel_deleted s5)
            from delete_tunnel_step_trace [OF went_on(1)] obtain rq rep where
              e5: "trace s5 = trace s4 @ [EHttp DeleteTunnel rq rep]"
              "atexit s5 = atexit s4" "sigint s5 = sigint s4" by blast
            from went_on(2) have fin: "s' = s5" "r = Inr dns_records_deleted"
              by (auto simp: ret_def)
            have "trace s' = trace s @ (evs @ evs') @ [EHttp DeleteTunnel rq rep]"
              using e5 t4 fin by simp
            with z4 c4 fin e5 e3 e2 s1 s3 show ?thesis
              by (intro conjI exI [of _ "evs @ evs'"]) auto
          qed
        qed
      qed
    qed
  qed
qed

section \<open>The two triggers of teardown\<close>



text \<open>The two local steps of \<^verbatim>\<open>cleanup\<close>, as the model writes them.\<close>

lemma remove_step_trace:
  assumes "(if path_exists sys p (world s) then
              (case os_remove sys p (world s) of
                 (ok, w1) \<Rightarrow> (if ok then Inr () else Inl OSError,
                              emit (ERemove p) (s\<lparr>world := w1\<rparr>)))
            else (Inr (), s)) = (r, s')"
  shows "atexit s' = atexit s \<and> sigint s' = sigint s
       \<and> (\<exists>loc. trace s' = trace s @ loc \<and> list_all local_event loc)"
  using assms by (auto simp: emit_def split: if_splits prod.splits)

lemma terminate_step_trace:
  assumes "(if poll sys (world s) = None then
              (case terminate sys (world s) of
                 (ok, w1) \<Rightarrow> (if ok then Inr () else Inl OSError,
                              emit ETerminate (s\<lparr>world := w1\<rparr>)))
            else (Inr (), s)) = (r, s')"
  shows "atexit s' = atexit s \<and> sigint s' = sigint s
       \<and> (\<exists>loc. trace s' = trace s @ loc \<and> list_all local_event loc)"
  using assms by (auto simp: emit_def split: if_splits prod.splits)

text \<open>Every definition of the script, to run it on a concrete machine.\<close>

lemmas model_defs =
  run_script_def main_def main_try_block_def check_cloudflared_installed_def install_instructions_def
  choose_tunnel_name_def get_api_key_def get_headers_def get_account_id_def
  create_tunnel_with_credentials_def create_tunnel_config_def get_account_domain_def
  put_ingress_config_def create_dns_record_def run_cloudflared_def process_wait_def
  signal_handler_def cleanup_def delete_tunnel_and_dns_def enumerate_zones_def
  zones_try_block_def zone_try_block_def exact_pass_def prefix_pass_def result_items_def
  name_matches_def delete_tunnel_step_def exit_status_def dns_record_url_def
  zone_id_given_def fallback_zones_def hardcoded_zone_id_def config_data_def dns_data_def
  strip_def is_space_def hex2_def hex_char_def
  andthen_def lift_def ret_def throw_def try_except_def requests_call_def emit_def
  response_json_def Let_def

lemmas machine_defs =
  machine_sys_def machine0_def start_def demo_args_def plain_args_def demo_ctx_def
  api_ok_def api_error_def zone1_def config_replies_def provisioning_replies_def
  teardown_replies_def second_teardown_replies_def teardown_state_def
  CLOUDFLARE_API_URL_def





section \<open>A teardown that is cut short\<close>

text \<open>
  Claim C5 at a run the code can meet: the token file is there and \<^verbatim>\<open>os.remove\<close> fails.
  \<^verbatim>\<open>cleanup\<close> has no \<^verbatim>\<open>try\<close> around it, so the exception ends the first teardown in the
  \<open>SIGINT\<close> handler, comes out of \<^verbatim>\<open>process.wait()\<close> and is turned into \<^verbatim>\<open>sys.exit(1)\<close>
  by \<^verbatim>\<open>main\<close>; the teardown at exit ends the same way. The run ends with status 1 instead
  of 0, the client is never terminated, and neither a DNS record nor the tunnel is deleted:
  the only thing either teardown did was the failed removal.
\<close>

theorem teardown_cut_short_by_remove:
  "fst stuck_file_run = 1
   \<and> drop 8 (trace (snd stuck_file_run))
       = [ERemove ''/tmp/cloudflared_token_tid.txt'', ERemove ''/tmp/cloudflared_token_tid.txt'']
   \<and> requests_at DeleteTunnel (trace (snd stuck_file_run)) = []
   \<and> running (world (snd stuck_file_run))"
  by (simp add: stuck_file_run_def model_defs machine_defs)

section \<open>A token request that is refused\<close>

lemma quiet_refl: "quiet s s"
  by (simp add: quiet_def)

lemma quiet_trans:
  assumes "quiet s s1" and "quiet s1 s2"
  shows "quiet s s2"
proof -
  from assms(1) obtain evs where a: "trace s1 = trace s @ evs"
    "list_all (\<lambda>e. \<not> refused_token e) evs" by (auto simp: quiet_def)
  from assms(2) obtain evs' where b: "trace s2 = trace s1 @ evs'"
    "list_all (\<lambda>e. \<not> refused_token e) evs'" by (auto simp: quiet_def)
  have "trace s2 = trace s @ (evs @ evs')" using a b by simp
  moreover have "list_all (\<lambda>e. \<not> refused_token e) (evs @ evs')" using a b by simp
  ultimately show ?thesis unfolding quiet_def by blast
qed

lemma zone_events_quiet:
  "list_all zone_event evs \<Longrightarrow> list_all (\<lambda>e. \<not> refused_token e) evs"
proof (induction evs)
  case Nil
  then show ?case by simp
next
  case (Cons e evs)
  then show ?case by (cases e rule: refused_token.cases) auto
qed

lemma local_events_quiet:
  "list_all local_event evs \<Longrightarrow> list_all (\<lambda>e. \<not> refused_token e) evs"
proof (induction evs)
  case Nil
  then show ?case by simp
next
  case (Cons e evs)
  then show ?case by (cases e rule: refused_token.cases) auto
qed

lemma get_account_id_shape:
  assumes "get_account_id sys environ s = (r, s')"
  shows "atexit s' = atexit s \<and> sigint s' = sigint s
       \<and> (\<exists>evs. trace s' = trace s @ evs \<and> list_all is_request evs
                 \<and> list_all (\<lambda>e. \<not> refused_token e) evs)"
  using assms
  by (auto simp: get_account_id_def prog_defs Let_def
           split: prod.splits sum.splits option.splits if_splits reply.splits)

lemma create_tunnel_with_credentials_shape:
  assumes "create_tunnel_with_credentials sys environ account_id tunnel_name debug s = (r, s')"
  shows "atexit s' = atexit s \<and> sigint s' = sigint s
       \<and> (\<exists>evs. trace s' = trace s @ evs
            \<and> (list_all (\<lambda>e. \<not> refused_token e) evs
                \<or> (list_all is_request evs \<and> r = Inl (SystemExit 1))))"
  using assms
  by (auto simp: create_tunnel_with_credentials_def prog_defs Let_def
           split: prod.splits sum.splits option.splits if_splits reply.splits json.splits)

lemma create_tunnel_config_quiet:
  assumes "create_tunnel_config sys environ account_id tunnel_id tunnel_name port local_addr
             custom_domain debug s = (r, s')"
  shows "atexit s' = atexit s \<and> sigint s' = sigint s \<and> quiet s s'"
  using create_tunnel_config_outcomes [OF assms] unfolding quiet_def
  by (elim conjE exE disjE) auto

lemma run_cloudflared_quiet:
  assumes "run_cloudflared sys token_file tunnel_id account_id tunnel_name debug s = (r, s')"
  shows "quiet s s'"
  using assms
  by (auto simp: run_cloudflared_def prog_defs Let_def quiet_def
           split: prod.splits sum.splits option.splits if_splits)

lemma cleanup_quiet:
  assumes "cleanup sys environ ctx s = (r, s')"
  shows "quiet s s'"
proof -
  from assms [unfolded cleanup_def] show ?thesis
  proof (cases rule: andthen_cases)
    case (raised e)
    from remove_step_trace [OF raised(1)] show ?thesis
      unfolding quiet_def by (auto dest: local_events_quiet)
  next
    case (went_on u s1)
    from remove_step_trace [OF went_on(1)] have q1: "quiet s s1"
      unfolding quiet_def by (auto dest: local_events_quiet)
    from went_on(2) show ?thesis
    proof (cases rule: andthen_cases)
      case (raised e)
      from terminate_step_trace [OF raised(1)] have "quiet s1 s'"
        unfolding quiet_def by (auto dest: local_events_quiet)
      with q1 show ?thesis by (rule quiet_trans)
    next
      case (went_on u2 s2)
      from terminate_step_trace [OF went_on(1)] have "quiet s1 s2"
        unfolding quiet_def by (auto dest: local_events_quiet)
      with q1 have q2: "quiet s s2" by (rule quiet_trans)
      have remote: "quiet a b" if "delete_tunnel_and_dns sys environ (ctx_account_id ctx)
          (ctx_tunnel_id ctx) (ctx_tunnel_name ctx) (Some hardcoded_zone_id) (ctx_debug ctx) a
            = (x, b)" for a b x
      proof -
        from delete_tunnel_and_dns_shape [OF that] obtain evs where
          z: "list_all zone_event evs"
          and t: "case x of
                  Inr n \<Rightarrow> n = deleted_count evs
                    \<and> (\<exists>rq rep. trace b = trace a @ evs @ [EHttp DeleteTunnel rq rep])
                | Inl e \<Rightarrow> trace b = trace a @ evs" by blast
        show ?thesis
        proof (cases x)
          case (Inl e)
          with t z show ?thesis unfolding quiet_def by (auto dest: zone_events_quiet)
        next
          case (Inr n)
          with t obtain rq rep where "trace b = trace a @ (evs @ [EHttp DeleteTunnel rq rep])"
            by auto
          moreover have "list_all (\<lambda>e. \<not> refused_token e) (evs @ [EHttp DeleteTunnel rq rep])"
            using zone_events_quiet [OF z] by simp
          ultimately show ?thesis unfolding quiet_def by blast
        qed
      qed
      from went_on(2) show ?thesis
      proof (cases rule: andthen_cases)
        case (raised e)
        from quiet_trans [OF q2 remote [OF raised(1)]] show ?thesis .
      next
        case (went_on n s3)
        from went_on(2) have "s' = s3" by (simp add: ret_def)
        with quiet_trans [OF q2 remote [OF went_on(1)]] show ?thesis by simp
      qed
    qed
  qed
qed

lemma signal_handler_quiet:
  assumes "signal_handler sys environ ctx s = (r, s')"
  shows "quiet s s'"
proof -
  from assms have "cleanup sys environ ctx s = (fst (cleanup sys environ ctx s), s')"
    by (cases "cleanup sys environ ctx s")
       (auto simp: signal_handler_def andthen_def throw_def split: sum.splits)
  then show ?thesis by (rule cleanup_quiet)
qed

lemma process_wait_quiet:
  assumes "process_wait sys environ s = (r, s')"
  shows "quiet s s'"
proof -
  have same: "quiet s (s\<lparr>world := w\<rparr>)" for w
    by (simp add: quiet_def)
  from assms consider (plain) w where "s' = s\<lparr>world := w\<rparr>"
    | (handled) w ctx where "signal_handler sys environ ctx (s\<lparr>world := w\<rparr>) = (r, s')"
    by (auto simp: process_wait_def split: prod.splits wait_result.splits option.splits)
  then show ?thesis
  proof cases
    case plain
    with same show ?thesis by simp
  next
    case handled
    from quiet_trans [OF same signal_handler_quiet [OF handled]] show ?thesis .
  qed
qed

lemma run_exitfuncs_quiet: "quiet s (run_exitfuncs sys environ ctxs s)"
proof (induction ctxs arbitrary: s)
  case Nil
  then show ?case by (simp add: quiet_refl)
next
  case (Cons ctx ctxs)
  have "quiet s (snd (cleanup sys environ ctx s))"
    by (rule cleanup_quiet [of sys environ ctx s "fst (cleanup sys environ ctx s)"]) simp
  from quiet_trans [OF this Cons.IH] show ?case by simp
qed

text \<open>
  How the body of \<^verbatim>\<open>main\<close>'s \<^verbatim>\<open>try\<close> block ends: either no token request was refused, or
  it ended in \<^verbatim>\<open>sys.exit(1)\<close> having sent requests only, with nothing registered for exit.
\<close>

lemma main_try_block_token:
  assumes "main_try_block sys environ a tunnel_name s = (r, s')"
  shows "quiet s s'
       \<or> (r = Inl (SystemExit 1) \<and> atexit s' = atexit s
           \<and> (\<exists>evs. trace s' = trace s @ evs \<and> list_all is_request evs))"
proof -
  from assms [unfolded main_try_block_def] show ?thesis
  proof (cases rule: andthen_cases)
    case (raised e)
    from lift_cases [OF raised(1)] show ?thesis by (simp add: quiet_refl)
  next
    case (went_on api_key s1)
    from lift_cases [OF went_on(1)] have s1: "s1 = s" by simp
    from went_on(2) show ?thesis
    proof (cases rule: andthen_cases)
      case (raised e)
      from get_account_id_shape [OF raised(1)] s1 show ?thesis
        unfolding quiet_def by blast
    next
      case (went_on account_id s2)
      from get_account_id_shape [OF went_on(1)] s1 obtain evs where
        a: "trace s2 = trace s @ evs" "list_all is_request evs"
        "list_all (\<lambda>e. \<not> refused_token e) evs" "atexit s2 = atexit s" by auto
      then have q2: "quiet s s2" unfolding quiet_def by blast
      from went_on(2) show ?thesis
      proof (cases rule: andthen_cases)
        case (raised e)
        from create_tunnel_with_credentials_shape [OF raised(1)] obtain evs' where
          b: "trace s' = trace s2 @ evs'" "atexit s' = atexit s2"
          "list_all (\<lambda>e. \<not> refused_token e) evs'
             \<or> (list_all is_request evs' \<and> Inl e = (Inl (SystemExit 1) :: exn + json \<times> string))"
          by blast
        from b(3) show ?thesis
        proof
          assume "list_all (\<lambda>e. \<not> refused_token e) evs'"
          with b(1) have "quiet s2 s'" unfolding quiet_def by blast
          with q2 have "quiet s s'" by (rule quiet_trans)
          then show ?thesis by simp
        next
          assume c: "list_all is_request evs' \<and> Inl e = (Inl (SystemExit 1) :: exn + json \<times> string)"
          from c have "e = SystemExit 1" by simp
          with raised(2) have r1: "r = Inl (SystemExit 1)" by simp
          have h: "atexit s' = atexit s" using a b by simp
          have t: "trace s' = trace s @ (evs @ evs')" using a b by simp
          have q: "list_all is_request (evs @ evs')" using a c by simp
          from r1 h t q show ?thesis by blast
        qed
      next
        case (went_on created s3)
        obtain tunnel_id token_file where created: "created = (tunnel_id, token_file)"
          by (cases created)
        from create_tunnel_with_credentials_shape [OF went_on(1)] obtain evs' where
          "trace s3 = trace s2 @ evs'" "list_all (\<lambda>e. \<not> refused_token e) evs'"
          by auto
        then have "quiet s2 s3" unfolding quiet_def by blast
        with q2 have q3: "quiet s s3" by (rule quiet_trans)
        from went_on(2) [unfolded created, simplified] show ?thesis
        proof (cases rule: andthen_cases)
          case (raised e)
          from create_tunnel_config_quiet [OF raised(1)] q3 show ?thesis
            by (blast intro: quiet_trans)
        next
          case (went_on hostname s4)
          from create_tunnel_config_quiet [OF went_on(1)] q3 have q4: "quiet s s4"
            by (blast intro: quiet_trans)
          from went_on(2) show ?thesis
          proof (cases rule: andthen_cases)
            case (raised e)
            from run_cloudflared_quiet [OF raised(1)] q4 show ?thesis
              by (blast intro: quiet_trans)
          next
            case (went_on u s5)
            from run_cloudflared_quiet [OF went_on(1)] q4 have q5: "quiet s s5"
              by (blast intro: quiet_trans)
            from process_wait_quiet [OF went_on(2)] q5 show ?thesis
              by (blast intro: quiet_trans)
          qed
        qed
      qed
    qed
  qed
qed

lemma main_token:
  assumes "main sys environ a s = (r, s')"
  shows "quiet s s'
       \<or> (r = Inl (SystemExit 1) \<and> atexit s' = atexit s
           \<and> (\<exists>evs. trace s' = trace s @ evs \<and> list_all is_request evs))"
proof -
  have still: "quiet s (s\<lparr>world := w\<rparr>)" for w
    by (simp add: quiet_def)
  from assms consider (early) w where "s' = s\<lparr>world := w\<rparr>"
    | (tried) w tunnel_name rb where
        "main_try_block sys environ a tunnel_name (s\<lparr>world := w\<rparr>) = (rb, s')"
        "rb = r \<or> (r = Inl (SystemExit 1) \<and> (\<exists>e. rb = Inl e))"
    by (auto simp: main_def check_cloudflared_installed_def install_instructions_def
          andthen_def throw_def ret_def try_except_def
          split: prod.splits sum.splits run_result.splits if_splits)
  then show ?thesis
  proof cases
    case early
    with still show ?thesis by simp
  next
    case tried
    from main_try_block_token [OF tried(1)] show ?thesis
    proof
      assume "quiet (s\<lparr>world := w\<rparr>) s'"
      from quiet_trans [OF still this] show ?thesis by simp
    next
      assume "rb = Inl (SystemExit 1) \<and> atexit s' = atexit (s\<lparr>world := w\<rparr>)
        \<and> (\<exists>evs. trace s' = trace (s\<lparr>world := w\<rparr>) @ evs \<and> list_all is_request evs)"
      with tried(2) show ?thesis by auto
    qed
  qed
qed

text \<open>
  Claim C6. If the request for the run token is answered with a status other than 200, the
  process exits with status 1, no token file is written and the tunnel client is not
  started. (The version check \<^verbatim>\<open>cloudflared --version\<close> at the start of \<^verbatim>\<open>main\<close> has run
  by then; it is not the tunnel client.)
\<close>

theorem token_refused_exit:
  assumes "run_script sys environ a w = (code, s')"
    and "EHttp FetchToken rq (Resp x) \<in> set (trace s')"
    and "status_code x \<noteq> 200"
  shows "code = 1 \<and> (\<forall>p c. EWrite p c \<notin> set (trace s')) \<and> (\<forall>cmd. EPopen cmd \<notin> set (trace s'))"
proof -
  let ?s0 = "\<lparr>world = w, trace = [], atexit = [], sigint = None\<rparr>"
  obtain rm sm where m: "main sys environ a ?s0 = (rm, sm)"
    by (cases "main sys environ a ?s0")
  with assms(1) have code: "code = exit_status rm"
    and fin: "s' = run_exitfuncs sys environ (atexit sm) sm"
    by (simp_all add: run_script_def)
  have refused: "refused_token (EHttp FetchToken rq (Resp x))" using assms(3) by simp
  from main_token [OF m] show ?thesis
  proof
    assume "quiet ?s0 sm"
    from quiet_trans [OF this run_exitfuncs_quiet [of sm sys environ "atexit sm"]] fin
    have "quiet ?s0 s'" by simp
    then have "list_all (\<lambda>e. \<not> refused_token e) (trace s')" by (simp add: quiet_def)
    with assms(2) refused show ?thesis by (auto simp: list_all_iff)
  next
    assume c: "rm = Inl (SystemExit 1) \<and> atexit sm = atexit ?s0
      \<and> (\<exists>evs. trace sm = trace ?s0 @ evs \<and> list_all is_request evs)"
    then have "s' = sm" using fin by simp
    with c have all: "list_all is_request (trace s')" by auto
    have "EWrite p c \<notin> set (trace s')" for p c
      using all by (auto simp: list_all_iff)
    moreover have "EPopen cmd \<notin> set (trace s')" for cmd
      using all by (auto simp: list_all_iff)
    moreover have "code = 1" using c code by (simp add: exit_status_def)
    ultimately show ?thesis by blast
  qed
qed

theorem token_refused_exit_witness:
  "EHttp FetchToken
     \<lparr>req_method = GET,
      req_url = ''https://api.cloudflare.com/client/v4/accounts/acc/cfd_tunnel/tid/token'',
      req_headers = [(''Authorization'', ''Bearer tok''), (''Content-Type'', ''application/json'')],
      req_json = None\<rparr>
     (api_error 403) \<in> set (trace (snd refused_run))
   \<and> fst refused_run = 1
   \<and> (\<forall>p c. EWrite p c \<notin> set (trace (snd refused_run)))
   \<and> (\<forall>cmd. EPopen cmd \<notin> set (trace (snd refused_run)))"
proof -
  let ?m = "machine0\<lparr>pending := [api_ok (JList [JDict [(''id'', JStr ''acc'')]]),
                                   api_ok (JDict [(''id'', JStr ''tid'')]),
                                   api_error 403]\<rparr>"
  have run: "run_script machine_sys (Some ''tok'') plain_args ?m = (fst refused_run, snd refused_run)"
    by (simp add: refused_run_def)
  have ev: "EHttp FetchToken
     \<lparr>req_method = GET,
      req_url = ''https://api.cloudflare.com/client/v4/accounts/acc/cfd_tunnel/tid/token'',
      req_headers = [(''Authorization'', ''Bearer tok''), (''Content-Type'', ''application/json'')],
      req_json = None\<rparr>
     (Resp \<lparr>status_code = 403, body = Some (JDict [(''success'', JBool False)])\<rparr>)
       \<in> set (trace (snd refused_run))"
    by (simp add: refused_run_def model_defs machine_defs)
  from token_refused_exit [OF run ev] ev show ?thesis
    by (simp add: api_error_def)
qed

section \<open>The records teardown deletes\<close>

lemma deletes_prefix_Nil [simp]: "deletes_prefix zid ids []"
  by (simp add: deletes_prefix_def)

lemma deletes_prefix_Cons [simp]:
  "deletes_prefix zid (i # ids) (e # devs)
     = (delete_request zid i e \<and> deletes_prefix zid ids devs)"
  by (auto simp: deletes_prefix_def)

lemma result_items_exc: "result_items x = Inl e \<Longrightarrow> is_Exception e"
  by (auto simp: result_items_def response_json_def split: option.splits sum.splits
           dest: py_exc)

lemma name_matches_exc: "name_matches v tunnel_name = Inl e \<Longrightarrow> is_Exception e"
  by (auto simp: name_matches_def split: sum.splits dest: py_exc)

lemma getitem_then_get:
  "py_getitem item k = Inr v \<Longrightarrow> \<exists>w. py_get item k' d = Inr w"
  by (cases item) (simp_all split: option.splits)

lemma falsy_iter: "\<not> truthy v \<Longrightarrow> py_iter v = Inr records \<Longrightarrow> records = []"
  by (cases v) auto

text \<open>
  The first loop: it sends the deletions of the records in order; it comes to its end
  exactly when every record has an identifier and no deletion fails on the network.
\<close>

lemma delete_listed_prefix:
  "delete_listed sys headers zid records n s = ((raised, n'), s')
     \<Longrightarrow> \<exists>devs. trace s' = trace s @ devs
           \<and> deletes_prefix zid (List.map_filter record_id records) devs
           \<and> (\<forall>e. raised = Some e \<longrightarrow> is_Exception e)
           \<and> ((raised = None)
                = (list_all (\<lambda>item. record_id item \<noteq> None) records
                   \<and> \<not> list_ex network_error devs))
           \<and> (raised = None \<longrightarrow> length devs = length (List.map_filter record_id records))"
proof (induction records arbitrary: n s)
  case Nil
  then show ?case by (simp add: List.map_filter_simps)
next
  case (Cons item rest)
  show ?case
  proof (cases "py_getitem item ''id''")
    case (Inl e)
    then have none: "record_id item = None" by (simp add: record_id_def)
    from Inl have "is_Exception e" by (rule py_getitem_exc)
    moreover from Cons.prems Inl have "s' = s" "raised = Some e" by simp_all
    ultimately show ?thesis using none by (intro exI [of _ "[]"]) simp
  next
    case (Inr dns_id)
    then have rid: "record_id item = Some dns_id" by (simp add: record_id_def)
    then have ids: "List.map_filter record_id (item # rest)
        = dns_id # List.map_filter record_id rest"
      by (simp add: List.map_filter_simps)
    from getitem_then_get [OF Inr] obtain record_name where
      name: "py_get item ''name'' (JStr ''unknown'') = Inr record_name" by blast
    obtain r s1 where call: "requests_call sys (DeleteDns zid dns_id) DELETE
        (dns_record_url zid dns_id) headers None s = (r, s1)"
      by (cases "requests_call sys (DeleteDns zid dns_id) DELETE
        (dns_record_url zid dns_id) headers None s")
    define ev where "ev rep = EHttp (DeleteDns zid dns_id)
        \<lparr>req_method = DELETE, req_url = dns_record_url zid dns_id, req_headers = headers,
         req_json = None\<rparr> rep" for rep
    from requests_call_trace [OF call] obtain rep where
      t: "trace s1 = trace s @ [ev rep]"
      and r: "r = (case rep of NetworkError \<Rightarrow> Inl RequestException | Resp x \<Rightarrow> Inr x)"
      unfolding ev_def by blast
    have sent: "delete_request zid dns_id (ev rep)" by (simp add: ev_def)
    show ?thesis
    proof (cases rep)
      case NetworkError
      with r Cons.prems Inr name call have "s' = s1" "raised = Some RequestException"
        by simp_all
      moreover have "network_error (ev rep)" using NetworkError by (simp add: ev_def)
      ultimately show ?thesis using t sent ids
        by (intro exI [of _ "[ev rep]"]) simp
    next
      case (Resp x)
      then have calm: "\<not> network_error (ev rep)" by (simp add: ev_def)
      from Resp r Cons.prems Inr name call
      have "delete_listed sys headers zid rest (if status_code x = 200 then n + 1 else n) s1
              = ((raised, n'), s')" by simp
      from Cons.IH [OF this] obtain devs where
        a: "trace s' = trace s1 @ devs"
        and b: "deletes_prefix zid (List.map_filter record_id rest) devs"
        and c: "\<forall>e. raised = Some e \<longrightarrow> is_Exception e"
        and d: "(raised = None) = (list_all (\<lambda>item. record_id item \<noteq> None) rest
                   \<and> \<not> list_ex network_error devs)"
        and e: "raised = None \<longrightarrow> length devs = length (List.map_filter record_id rest)"
        by blast
      have "trace s' = trace s @ (ev rep # devs)" using a t by simp
      moreover have "deletes_prefix zid (List.map_filter record_id (item # rest)) (ev rep # devs)"
        using b sent ids by simp
      moreover have "(raised = None) = (list_all (\<lambda>item. record_id item \<noteq> None) (item # rest)
                   \<and> \<not> list_ex network_error (ev rep # devs))"
        using d rid calm by simp
      moreover have "raised = None \<longrightarrow> length (ev rep # devs)
          = length (List.map_filter record_id (item # rest))"
        using e ids by simp
      ultimately show ?thesis using c by (intro exI [of _ "ev rep # devs"]) blast
    qed
  qed
qed

text \<open>
  The second loop: it sends the deletions of the records that pass the test, in order; it
  comes to its end exactly when every record can be tested, every one that passes has an
  identifier, and no deletion fails on the network.
\<close>

lemma delete_matching_prefix:
  "delete_matching sys headers zid tunnel_name records n s = ((raised, n'), s')
     \<Longrightarrow> \<exists>devs. trace s' = trace s @ devs
           \<and> deletes_prefix zid
                (List.map_filter record_id
                   (filter (\<lambda>item. record_matches tunnel_name item = Some True) records)) devs
           \<and> (\<forall>e. raised = Some e \<longrightarrow> is_Exception e)
           \<and> ((raised = None)
                = (list_all (checkable tunnel_name) records \<and> \<not> list_ex network_error devs))
           \<and> (raised = None \<longrightarrow> length devs
                = length (List.map_filter record_id
                   (filter (\<lambda>item. record_matches tunnel_name item = Some True) records)))"
proof (induction records arbitrary: n s)
  case Nil
  then show ?case by (simp add: List.map_filter_simps)
next
  case (Cons item rest)
  let ?ids = "\<lambda>records. List.map_filter record_id
      (filter (\<lambda>item. record_matches tunnel_name item = Some True) records)"
  have stuck: ?case
    if "s' = s" and "raised = Some e" and "is_Exception e" and "\<not> checkable tunnel_name item"
    for e
    using that by (intro exI [of _ "[]"]) simp
  show ?case
  proof (cases "py_get item ''name'' (JStr [])")
    case (Inl e)
    then have "\<not> checkable tunnel_name item"
      by (simp add: checkable_def record_matches_def)
    moreover from Inl have "is_Exception e" by (rule py_get_exc)
    moreover from Cons.prems Inl have "s' = s" "raised = Some e" by simp_all
    ultimately show ?thesis using stuck by blast
  next
    case name: (Inr record_name)
    show ?thesis
    proof (cases "name_matches record_name tunnel_name")
      case (Inl e)
      with name have "\<not> checkable tunnel_name item"
        by (simp add: checkable_def record_matches_def)
      moreover from Inl have "is_Exception e" by (rule name_matches_exc)
      moreover from Cons.prems name Inl have "s' = s" "raised = Some e" by simp_all
      ultimately show ?thesis using stuck by blast
    next
      case m: (Inr b)
      with name have rm: "record_matches tunnel_name item = Some b"
        by (simp add: record_matches_def)
      show ?thesis
      proof (cases b)
        case False
        with rm have skip: "?ids (item # rest) = ?ids rest"
          and ok: "checkable tunnel_name item"
          by (simp_all add: checkable_def)
        from False Cons.prems name m
        have "delete_matching sys headers zid tunnel_name rest n s = ((raised, n'), s')" by simp
        from Cons.IH [OF this] show ?thesis unfolding skip using ok by simp
      next
        case True
        show ?thesis
        proof (cases "py_getitem item ''id''")
          case (Inl e)
          with rm True have "\<not> checkable tunnel_name item"
            by (simp add: checkable_def record_id_def)
          moreover from Inl have "is_Exception e" by (rule py_getitem_exc)
          moreover from Cons.prems name m True Inl have "s' = s" "raised = Some e" by simp_all
          ultimately show ?thesis using stuck by blast
        next
          case (Inr dns_id)
          then have rid: "record_id item = Some dns_id" by (simp add: record_id_def)
          with rm True have ids: "?ids (item # rest) = dns_id # ?ids rest"
            and ok: "checkable tunnel_name item"
            by (simp_all add: List.map_filter_simps checkable_def)
          obtain r s1 where call: "requests_call sys (DeleteDns zid dns_id) DELETE
              (dns_record_url zid dns_id) headers None s = (r, s1)"
            by (cases "requests_call sys (DeleteDns zid dns_id) DELETE
              (dns_record_url zid dns_id) headers None s")
          define ev where "ev rep = EHttp (DeleteDns zid dns_id)
              \<lparr>req_method = DELETE, req_url = dns_record_url zid dns_id, req_headers = headers,
               req_json = None\<rparr> rep" for rep
          from requests_call_trace [OF call] obtain rep where
            t: "trace s1 = trace s @ [ev rep]"
            and r: "r = (case rep of NetworkError \<Rightarrow> Inl RequestException | Resp x \<Rightarrow> Inr x)"
            unfolding ev_def by blast
          have sent: "delete_request zid dns_id (ev rep)" by (simp add: ev_def)
          show ?thesis
          proof (cases rep)
            case NetworkError
            with r Cons.prems name m True Inr call
            have "s' = s1" "raised = Some RequestException" by simp_all
            moreover have "network_error (ev rep)" using NetworkError by (simp add: ev_def)
            ultimately show ?thesis using t sent ids
              by (intro exI [of _ "[ev rep]"]) simp
          next
            case (Resp x)
            then have calm: "\<not> network_error (ev rep)" by (simp add: ev_def)
            from Resp r Cons.prems name m True Inr call
            have "delete_matching sys headers zid tunnel_name rest
                    (if status_code x = 200 then n + 1 else n) s1 = ((raised, n'), s')" by simp
            from Cons.IH [OF this] obtain devs where
              a: "trace s' = trace s1 @ devs"
              and b: "deletes_prefix zid (?ids rest) devs"
              and c: "\<forall>e. raised = Some e \<longrightarrow> is_Exception e"
              and d: "(raised = None) = (list_all (checkable tunnel_name) rest
                         \<and> \<not> list_ex network_error devs)"
              and e: "raised = None \<longrightarrow> length devs = length (?ids rest)"
              by blast
            have "trace s' = trace s @ (ev rep # devs)" using a t by simp
            moreover have "deletes_prefix zid (?ids (item # rest)) (ev rep # devs)"
              unfolding ids using b sent by simp
            moreover have "(raised = None) = (list_all (checkable tunnel_name) (item # rest)
                         \<and> \<not> list_ex network_error (ev rep # devs))"
              using d ok calm by simp
            moreover have "raised = None \<longrightarrow> length (ev rep # devs) = length (?ids (item # rest))"
              unfolding ids using e by simp
            ultimately show ?thesis using c by (intro exI [of _ "ev rep # devs"]) blast
          qed
        qed
      qed
    qed
  qed
qed

text \<open>The first pass over a zone: the listing by name, then the first loop.\<close>

lemma exact_pass_visit:
  assumes "exact_pass sys headers zid tunnel_name n s = ((raised, n'), s')"
  shows "\<exists>rq rep devs.
           trace s' = trace s @ EHttp (ListDnsByName zid) rq rep # devs
         \<and> req_method rq = GET
         \<and> req_url rq = CLOUDFLARE_API_URL @ ''/zones/'' @ py_str zid @ ''/dns_records?name=''
                          @ tunnel_name
         \<and> deletes_prefix zid (listed_ids rep) devs
         \<and> (\<forall>e. raised = Some e \<longrightarrow> is_Exception e)
         \<and> ((raised = None) = (readable rep \<and> \<not> list_ex network_error devs))
         \<and> (raised = None \<longrightarrow> length devs = length (listed_ids rep))"
proof -
  define url where "url = CLOUDFLARE_API_URL @ ''/zones/'' @ py_str zid @ ''/dns_records?name=''
      @ tunnel_name"
  define rq where "rq = \<lparr>req_method = GET, req_url = url, req_headers = headers,
      req_json = None\<rparr>"
  obtain r s1 where call: "requests_call sys (ListDnsByName zid) GET url headers None s = (r, s1)"
    by (cases "requests_call sys (ListDnsByName zid) GET url headers None s")
  from requests_call_trace [OF call] obtain rep where
    t: "trace s1 = trace s @ [EHttp (ListDnsByName zid) rq rep]"
    and r: "r = (case rep of NetworkError \<Rightarrow> Inl RequestException | Resp x \<Rightarrow> Inr x)"
    unfolding rq_def by blast
  have m: "req_method rq = GET" and u: "req_url rq = CLOUDFLARE_API_URL @ ''/zones/''
      @ py_str zid @ ''/dns_records?name='' @ tunnel_name"
    by (simp_all add: rq_def url_def)
  note run = assms [unfolded exact_pass_def] call [unfolded url_def]
  have stop: ?thesis
    if "s' = s1" and "\<forall>e. raised = Some e \<longrightarrow> is_Exception e"
      and "(raised = None) = readable rep" and "raised = None \<longrightarrow> listed_ids rep = []"
  proof -
    have "trace s' = trace s @ EHttp (ListDnsByName zid) rq rep # []" using t that(1) by simp
    moreover have "deletes_prefix zid (listed_ids rep) []" by simp
    moreover have "(raised = None) = (readable rep \<and> \<not> list_ex network_error [])"
      using that(3) by simp
    moreover have "raised = None \<longrightarrow> length ([] :: event list) = length (listed_ids rep)"
      using that(4) by simp
    ultimately show ?thesis using m u that(2) by blast
  qed
  show ?thesis
  proof (cases rep)
    case NetworkError
    with run r have "s' = s1" "raised = Some RequestException" by simp_all
    with NetworkError show ?thesis by (intro stop) simp_all
  next
    case (Resp x)
    with r have rx: "r = Inr x" by simp
    show ?thesis
    proof (cases "status_code x = 200")
      case False
      with run rx have "s' = s1" "raised = None" by simp_all
      with Resp False show ?thesis by (intro stop) (simp_all add: listed_ids_def List.map_filter_simps)
    next
      case True
      show ?thesis
      proof (cases "result_items x")
        case (Inl e)
        with run rx True have "s' = s1" "raised = Some e" by simp_all
        moreover from Inl have "is_Exception e" by (rule result_items_exc)
        ultimately show ?thesis using Resp True Inl by (intro stop) simp_all
      next
        case (Inr dns_records)
        show ?thesis
        proof (cases "truthy dns_records")
          case False
          with run rx True Inr have "s' = s1" "raised = None" by simp_all
          moreover have "answer_records rep = []"
            using Resp True Inr False by (auto split: sum.splits dest: falsy_iter)
          ultimately show ?thesis using Resp True Inr False
            by (intro stop) (simp_all add: listed_ids_def List.map_filter_simps)
        next
          case truthy: True
          show ?thesis
          proof (cases "py_iter dns_records")
            case (Inl e)
            with run rx True Inr truthy have "s' = s1" "raised = Some e" by simp_all
            moreover from Inl have "is_Exception e" by (rule py_iter_exc)
            ultimately show ?thesis using Resp True Inr truthy Inl by (intro stop) simp_all
          next
            case iter: (Inr todo)
            with run rx True Inr truthy
            have "delete_listed sys headers zid todo n s1 = ((raised, n'), s')" by simp
            from delete_listed_prefix [OF this] obtain devs where
              a: "trace s' = trace s1 @ devs"
              and b: "deletes_prefix zid (List.map_filter record_id todo) devs"
              and c: "\<forall>e. raised = Some e \<longrightarrow> is_Exception e"
              and d: "(raised = None) = (list_all (\<lambda>item. record_id item \<noteq> None) todo
                         \<and> \<not> list_ex network_error devs)"
              and e: "raised = None \<longrightarrow> length devs = length (List.map_filter record_id todo)"
              by blast
            have ids: "listed_ids rep = List.map_filter record_id todo"
              using Resp True Inr iter by (simp add: listed_ids_def)
            have rd: "readable rep = list_all (\<lambda>item. record_id item \<noteq> None) todo"
              using Resp True Inr iter truthy by simp
            have "trace s' = trace s @ EHttp (ListDnsByName zid) rq rep # devs"
              using a t by simp
            moreover have "deletes_prefix zid (listed_ids rep) devs" using b ids by simp
            moreover have "(raised = None) = (readable rep \<and> \<not> list_ex network_error devs)"
              using d rd by simp
            moreover have "raised = None \<longrightarrow> length devs = length (listed_ids rep)"
              using e ids by simp
            ultimately show ?thesis using m u c by blast
          qed
        qed
      qed
    qed
  qed
qed

text \<open>The second pass over a zone: the listing of all records, then the second loop.\<close>

lemma prefix_pass_visit:
  assumes "prefix_pass sys headers zid tunnel_name n s = ((raised, n'), s')"
  shows "\<exists>evs. trace s' = trace s @ evs \<and> second_pass tunnel_name zid evs
           \<and> (\<forall>e. raised = Some e \<longrightarrow> is_Exception e)"
proof -
  define url where "url = CLOUDFLARE_API_URL @ ''/zones/'' @ py_str zid @ ''/dns_records''"
  define rq where "rq = \<lparr>req_method = GET, req_url = url, req_headers = headers,
      req_json = None\<rparr>"
  obtain r s1 where call: "requests_call sys (ListDnsAll zid) GET url headers None s = (r, s1)"
    by (cases "requests_call sys (ListDnsAll zid) GET url headers None s")
  from requests_call_trace [OF call] obtain rep where
    t: "trace s1 = trace s @ [EHttp (ListDnsAll zid) rq rep]"
    and r: "r = (case rep of NetworkError \<Rightarrow> Inl RequestException | Resp x \<Rightarrow> Inr x)"
    unfolding rq_def by blast
  have m: "req_method rq = GET" and u: "req_url rq = CLOUDFLARE_API_URL @ ''/zones/''
      @ py_str zid @ ''/dns_records''"
    by (simp_all add: rq_def url_def)
  note run = assms [unfolded prefix_pass_def] call [unfolded url_def]
  have stop: ?thesis
    if "s' = s1" and "\<forall>e. raised = Some e \<longrightarrow> is_Exception e"
      and "testable tunnel_name rep \<longrightarrow> matching_ids tunnel_name rep = []"
  proof -
    have "trace s' = trace s @ [EHttp (ListDnsAll zid) rq rep]" using t that(1) by simp
    moreover have "second_pass tunnel_name zid [EHttp (ListDnsAll zid) rq rep]"
      unfolding second_pass_def using m u that(3)
      by (intro exI [of _ rq] exI [of _ rep] exI [of _ "[]"]) simp
    ultimately show ?thesis using that(2) by blast
  qed
  show ?thesis
  proof (cases rep)
    case NetworkError
    with run r have "s' = s1" "raised = Some RequestException" by simp_all
    with NetworkError show ?thesis by (intro stop) simp_all
  next
    case (Resp x)
    with r have rx: "r = Inr x" by simp
    show ?thesis
    proof (cases "status_code x = 200")
      case False
      with run rx have "s' = s1" "raised = None" by simp_all
      with Resp False show ?thesis
        by (intro stop) (simp_all add: matching_ids_def List.map_filter_simps)
    next
      case True
      show ?thesis
      proof (cases "result_items x")
        case (Inl e)
        with run rx True have "s' = s1" "raised = Some e" by simp_all
        moreover from Inl have "is_Exception e" by (rule result_items_exc)
        ultimately show ?thesis using Resp True Inl by (intro stop) simp_all
      next
        case (Inr all_dns_records)
        show ?thesis
        proof (cases "py_iter all_dns_records")
          case (Inl e)
          with run rx True Inr have "s' = s1" "raised = Some e" by simp_all
          moreover from Inl have "is_Exception e" by (rule py_iter_exc)
          ultimately show ?thesis using Resp True Inr Inl by (intro stop) simp_all
        next
          case iter: (Inr todo)
          with run rx True Inr
          have "delete_matching sys headers zid tunnel_name todo n s1 = ((raised, n'), s')"
            by simp
          from delete_matching_prefix [OF this] obtain devs where
            a: "trace s' = trace s1 @ devs"
            and b: "deletes_prefix zid
                (List.map_filter record_id
                   (filter (\<lambda>item. record_matches tunnel_name item = Some True) todo)) devs"
            and c: "\<forall>e. raised = Some e \<longrightarrow> is_Exception e"
            and d: "(raised = None)
                = (list_all (checkable tunnel_name) todo \<and> \<not> list_ex network_error devs)"
            and e: "raised = None \<longrightarrow> length devs
                = length (List.map_filter record_id
                   (filter (\<lambda>item. record_matches tunnel_name item = Some True) todo))"
            by blast
          have ids: "matching_ids tunnel_name rep = List.map_filter record_id
                   (filter (\<lambda>item. record_matches tunnel_name item = Some True) todo)"
            using Resp True Inr iter by (simp add: matching_ids_def)
          have td: "testable tunnel_name rep = list_all (checkable tunnel_name) todo"
            using Resp True Inr iter by simp
          have "trace s' = trace s @ EHttp (ListDnsAll zid) rq rep # devs"
            using a t by simp
          moreover have "second_pass tunnel_name zid (EHttp (ListDnsAll zid) rq rep # devs)"
            unfolding second_pass_def using m u b d e ids td
            by (intro exI [of _ rq] exI [of _ rep] exI [of _ devs]) simp
          ultimately show ?thesis using c by blast
        qed
      qed
    qed
  qed
qed

text \<open>The work on one zone, and what it raises: nothing that ends the loop.\<close>

lemma zone_try_block_visit:
  assumes "zone_try_block sys headers zid tunnel_name n s = ((raised, n'), s')"
  shows "\<exists>evs. trace s' = trace s @ evs \<and> visit tunnel_name zid evs
           \<and> (\<forall>e. raised = Some e \<longrightarrow> is_Exception e)"
proof -
  obtain e1 n1 s1 where first: "exact_pass sys headers zid tunnel_name n s = ((e1, n1), s1)"
    by (cases "exact_pass sys headers zid tunnel_name n s") auto
  from exact_pass_visit [OF first] obtain rq rep devs where
    t: "trace s1 = trace s @ EHttp (ListDnsByName zid) rq rep # devs"
    and m: "req_method rq = GET"
    and u: "req_url rq = CLOUDFLARE_API_URL @ ''/zones/'' @ py_str zid @ ''/dns_records?name=''
                          @ tunnel_name"
    and p: "deletes_prefix zid (listed_ids rep) devs"
    and x: "\<forall>e. e1 = Some e \<longrightarrow> is_Exception e"
    and c: "(e1 = None) = (readable rep \<and> \<not> list_ex network_error devs)"
    and f: "e1 = None \<longrightarrow> length devs = length (listed_ids rep)"
    by blast
  from assms first consider (stop) "s' = s1" "raised = e1"
      "\<not> (CHR ''.'' \<notin> set tunnel_name \<and> e1 = None)"
    | (second) "prefix_pass sys headers zid tunnel_name n1 s1 = ((raised, n'), s')"
        "CHR ''.'' \<notin> set tunnel_name" "e1 = None"
    by (auto simp: zone_try_block_def split: option.splits if_splits)
  then show ?thesis
  proof cases
    case stop
    have "trace s' = trace s @ EHttp (ListDnsByName zid) rq rep # devs @ []"
      using t stop(1) by simp
    moreover have "visit tunnel_name zid (EHttp (ListDnsByName zid) rq rep # devs @ [])"
      unfolding visit_def using m u p c f stop(3)
      by (intro exI [of _ rq] exI [of _ rep] exI [of _ devs] exI [of _ "[]"]) auto
    ultimately show ?thesis using x stop(2) by blast
  next
    case second
    from prefix_pass_visit [OF second(1)] obtain rest where
      a: "trace s' = trace s1 @ rest" and b: "second_pass tunnel_name zid rest"
      and y: "\<forall>e. raised = Some e \<longrightarrow> is_Exception e" by blast
    have "trace s' = trace s @ EHttp (ListDnsByName zid) rq rep # devs @ rest"
      using a t by simp
    moreover have "visit tunnel_name zid (EHttp (ListDnsByName zid) rq rep # devs @ rest)"
      unfolding visit_def using m u p c f b second(2,3)
      by (intro exI [of _ rq] exI [of _ rep] exI [of _ devs] exI [of _ rest]) auto
    ultimately show ?thesis using y by blast
  qed
qed

text \<open>
  The loop over the zones: one visit for each zone, in order, whatever happened in the
  zones before it.
\<close>

lemma zones_loop_visits:
  "zones_loop sys headers tunnel_name zones n s = (r, s')
     \<Longrightarrow> \<forall>zone\<in>set zones. record_id zone \<noteq> None
     \<Longrightarrow> \<exists>segs. trace s' = trace s @ concat segs
           \<and> list_all2 (zone_visit tunnel_name) zones segs \<and> (\<exists>m. r = Inr m)"
proof (induction zones arbitrary: n s)
  case Nil
  then show ?case by (intro exI [of _ "[]"]) auto
next
  case (Cons zone rest)
  from Cons.prems(2) obtain zid where zid: "record_id zone = Some zid" by auto
  then have item: "py_getitem zone ''id'' = Inr zid"
    by (simp add: record_id_def split: sum.splits)
  from getitem_then_get [OF item] obtain zone_name where
    name: "py_get zone ''name'' (JStr ''unknown'') = Inr zone_name" by blast
  obtain e1 n1 s1 where block: "zone_try_block sys headers zid tunnel_name n s = ((e1, n1), s1)"
    by (cases "zone_try_block sys headers zid tunnel_name n s") auto
  from zone_try_block_visit [OF block] obtain seg where
    t: "trace s1 = trace s @ seg" and v: "visit tunnel_name zid seg"
    and x: "\<forall>e. e1 = Some e \<longrightarrow> is_Exception e" by blast
  from Cons.prems(1) item name block x
  have "zones_loop sys headers tunnel_name rest n1 s1 = (r, s')"
    by (cases e1) simp_all
  from Cons.IH [OF this] Cons.prems(2) obtain segs where
    a: "trace s' = trace s1 @ concat segs"
    and b: "list_all2 (zone_visit tunnel_name) rest segs" and c: "\<exists>m. r = Inr m"
    by auto
  have "trace s' = trace s @ concat (seg # segs)" using a t by simp
  moreover have "list_all2 (zone_visit tunnel_name) (zone # rest) (seg # segs)"
    using b v zid by (simp add: zone_visit_def)
  ultimately show ?case using c by blast
qed

lemma enumerate_zones_trace:
  assumes "enumerate_zones sys headers account_id zone_id debug s = (r, s')"
  shows "\<exists>rq rep. trace s' = trace s @ [EHttp TeardownZones rq rep]"
proof -
  obtain r1 s1 where call: "requests_call sys TeardownZones GET
      (CLOUDFLARE_API_URL @ ''/accounts/'' @ py_str account_id @ ''/zones'') headers None s
        = (r1, s1)"
    by (cases "requests_call sys TeardownZones GET
      (CLOUDFLARE_API_URL @ ''/accounts/'' @ py_str account_id @ ''/zones'') headers None s")
  from assms call have "s' = s1"
    by (auto simp: enumerate_zones_def zones_try_block_def
             split: prod.splits sum.splits option.splits if_splits)
  with requests_call_trace [OF call] show ?thesis by blast
qed

lemma deleted_count_between:
  "deleted_count (EHttp TeardownZones rqz repz # evs @ [EHttp DeleteTunnel rq rep])
     = deleted_count evs"
  by (simp add: deleted_count_def)

text \<open>
  Claim C4, as the code has it. Let the zones scanned be the zones the enumeration gave,
  each with an identifier. Then \<^verbatim>\<open>delete_tunnel_and_dns\<close> returns, and between the
  enumeration and the deletion of the tunnel its requests are one visit for each zone, in
  the order of the zones and whatever happened in the zones before (an exception ends the
  work on its own zone only). In a visit (\<open>visit\<close>):

  \<^item> the records of the zone are listed with the filter \<^verbatim>\<open>name=<tunnel name>\<close> (the name of
    the tunnel, not the public hostname), and the deletion of the records of the answer is
    sent, one by one in order, of all of them if each has an identifier and no deletion
    fails on the network;
  \<^item> then, if the name of the tunnel has no dot and the first pass came to its end, all
    the records of the zone are listed and the deletion of those whose name starts with
    the name of the tunnel and a dot, or is the name of the tunnel, is sent, one by one in
    order, of all of them if every record can be tested and no deletion fails on the
    network;
  \<^item> if the name of the tunnel has a dot, or the first pass was ended by an exception,
    nothing more is sent for the zone.

  The number returned is the number of deletions of records answered with 200.
\<close>

theorem teardown_dns_records:
  assumes "get_headers environ = Inr headers"
    and "enumerate_zones sys headers account_id zone_id debug s = (Inr all_zones, s1)"
    and "py_iter all_zones = Inr zones"
    and "\<forall>zone\<in>set zones. record_id zone \<noteq> None"
    and "delete_tunnel_and_dns sys environ account_id tunnel_id tunnel_name zone_id debug s
           = (r, s')"
  shows "\<exists>rqz repz segs rq rep.
           new_events s s'
             = EHttp TeardownZones rqz repz # concat segs @ [EHttp DeleteTunnel rq rep]
         \<and> list_all2 (zone_visit tunnel_name) zones segs
         \<and> r = Inr (deleted_count (new_events s s'))"
proof -
  from enumerate_zones_trace [OF assms(2)] obtain rqz repz where
    t1: "trace s1 = trace s @ [EHttp TeardownZones rqz repz]" by blast
  from assms(5) [unfolded delete_tunnel_and_dns_def] show ?thesis
  proof (cases rule: andthen_cases)
    case (raised e)
    from lift_cases [OF raised(1)] assms(1) show ?thesis by simp
  next
    case (went_on hs sa)
    from lift_cases [OF went_on(1)] assms(1) have hs: "hs = headers" and sa: "sa = s" by simp_all
    from went_on(2) [unfolded hs sa] show ?thesis
    proof (cases rule: andthen_cases)
      case (raised e)
      with assms(2) show ?thesis by simp
    next
      case (went_on zs sb)
      with assms(2) have zs: "zs = all_zones" and sb: "sb = s1" by simp_all
      from went_on(2) [unfolded zs sb] show ?thesis
      proof (cases rule: andthen_cases)
        case (raised e)
        from lift_cases [OF raised(1)] assms(3) show ?thesis by simp
      next
        case (went_on zl sc)
        from lift_cases [OF went_on(1)] assms(3) have zl: "zl = zones" and sc: "sc = s1"
          by simp_all
        from went_on(2) [unfolded zl sc] show ?thesis
        proof (cases rule: andthen_cases)
          case (raised e)
          from zones_loop_visits [OF raised(1) assms(4)] raised(2) show ?thesis by auto
        next
          case (went_on dns_records_deleted s4)
          from zones_loop_visits [OF went_on(1) assms(4)] obtain segs where
            t4: "trace s4 = trace s1 @ concat segs"
            and visits: "list_all2 (zone_visit tunnel_name) zones segs" by blast
          from zones_loop_run [OF went_on(1)] have "zone_run s1 0 s4 dns_records_deleted"
            by auto
          then obtain evs where "trace s4 = trace s1 @ evs"
            "dns_records_deleted = 0 + deleted_count evs"
            by (rule zone_run_events)
          with t4 have count: "dns_records_deleted = deleted_count (concat segs)" by simp
          from went_on(2) show ?thesis
          proof (cases rule: andthen_cases)
            case (raised e)
            from delete_tunnel_step_trace [OF raised(1)] show ?thesis by simp
          next
            case (went_on tunnel_deleted s5)
            from delete_tunnel_step_trace [OF went_on(1)] obtain rq rep where
              t5: "trace s5 = trace s4 @ [EHttp DeleteTunnel rq rep]" by blast
            from went_on(2) have fin: "s' = s5" "r = Inr dns_records_deleted"
              by (auto simp: ret_def)
            have "trace s' = trace s
                @ (EHttp TeardownZones rqz repz # concat segs @ [EHttp DeleteTunnel rq rep])"
              using t1 t4 t5 fin by simp
            then have n: "new_events s s'
                = EHttp TeardownZones rqz repz # concat segs @ [EHttp DeleteTunnel rq rep]"
              by (rule new_events_append)
            have "r = Inr (deleted_count (new_events s s'))"
              unfolding n deleted_count_between using fin count by simp
            with n visits show ?thesis by blast
          qed
        qed
      qed
    qed
  qed
qed

lemmas provider_defs =
  provider_sys_def table_sys_def provider_table_def two_zone_table_def zone1_records_def
  dns_record_def zone0_def

lemma two_zone_teardown_eval:
  "fst (enumerate_zones (table_sys two_zone_table)
          [(''Authorization'', ''Bearer tok''), (''Content-Type'', ''application/json'')]
          (JStr ''acc'') (Some hardcoded_zone_id) False (start machine0))
     = Inr (JList [zone0, zone1])
   \<and> fst two_zone_teardown = Inr 2
   \<and> calls (trace (snd two_zone_teardown))
       = [(GET, ''https://api.cloudflare.com/client/v4/accounts/acc/zones''),
          (GET, ''https://api.cloudflare.com/client/v4/zones/z0/dns_records?name=demo''),
          (GET, ''https://api.cloudflare.com/client/v4/zones/z1/dns_records?name=demo''),
          (DELETE, ''https://api.cloudflare.com/client/v4/zones/z1/dns_records/r0''),
          (GET, ''https://api.cloudflare.com/client/v4/zones/z1/dns_records''),
          (DELETE, ''https://api.cloudflare.com/client/v4/zones/z1/dns_records/r1''),
          (DELETE, ''https://api.cloudflare.com/client/v4/accounts/acc/cfd_tunnel/tid'')]"
  by (simp add: two_zone_teardown_def model_defs machine_defs provider_defs calls_def
        List.map_filter_simps)

theorem teardown_dns_records_witness:
  "fst two_zone_teardown = Inr 2
   \<and> deleted_count (trace (snd two_zone_teardown)) = 2
   \<and> calls (trace (snd two_zone_teardown))
       = [(GET, ''https://api.cloudflare.com/client/v4/accounts/acc/zones''),
          (GET, ''https://api.cloudflare.com/client/v4/zones/z0/dns_records?name=demo''),
          (GET, ''https://api.cloudflare.com/client/v4/zones/z1/dns_records?name=demo''),
          (DELETE, ''https://api.cloudflare.com/client/v4/zones/z1/dns_records/r0''),
          (GET, ''https://api.cloudflare.com/client/v4/zones/z1/dns_records''),
          (DELETE, ''https://api.cloudflare.com/client/v4/zones/z1/dns_records/r1''),
          (DELETE, ''https://api.cloudflare.com/client/v4/accounts/acc/cfd_tunnel/tid'')]
   \<and> (\<exists>rqz repz segs rq rep.
         trace (snd two_zone_teardown)
           = EHttp TeardownZones rqz repz # concat segs @ [EHttp DeleteTunnel rq rep]
       \<and> list_all2 (zone_visit ''demo'') [zone0, zone1] segs)"
proof -
  let ?hs = "[(''Authorization'', ''Bearer tok''), (''Content-Type'', ''application/json'')]"
  let ?zs = "enumerate_zones (table_sys two_zone_table) ?hs (JStr ''acc'')
      (Some hardcoded_zone_id) False (start machine0)"
  have zs: "?zs = (Inr (JList [zone0, zone1]), snd ?zs)"
    using two_zone_teardown_eval by (simp add: prod_eq_iff)
  have it: "py_iter (JList [zone0, zone1]) = Inr [zone0, zone1]" by simp
  have ids: "\<forall>zone\<in>set [zone0, zone1]. record_id zone \<noteq> None"
    by (simp add: zone0_def zone1_def record_id_def)
  have run: "delete_tunnel_and_dns (table_sys two_zone_table) (Some ''tok'') (JStr ''acc'')
      (JStr ''tid'') ''demo'' (Some hardcoded_zone_id) False (start machine0)
        = (fst two_zone_teardown, snd two_zone_teardown)"
    by (simp add: two_zone_teardown_def)
  from teardown_dns_records [OF machine_headers zs it ids run, unfolded new_events_start]
  obtain rqz repz segs rq rep where
    a: "trace (snd two_zone_teardown)
          = EHttp TeardownZones rqz repz # concat segs @ [EHttp DeleteTunnel rq rep]"
    and b: "list_all2 (zone_visit ''demo'') [zone0, zone1] segs"
    and c: "fst two_zone_teardown = Inr (deleted_count (trace (snd two_zone_teardown)))"
    by blast
  from two_zone_teardown_eval have res: "fst two_zone_teardown = Inr 2"
    and sent: "calls (trace (snd two_zone_teardown))
       = [(GET, ''https://api.cloudflare.com/client/v4/accounts/acc/zones''),
          (GET, ''https://api.cloudflare.com/client/v4/zones/z0/dns_records?name=demo''),
          (GET, ''https://api.cloudflare.com/client/v4/zones/z1/dns_records?name=demo''),
          (DELETE, ''https://api.cloudflare.com/client/v4/zones/z1/dns_records/r0''),
          (GET, ''https://api.cloudflare.com/client/v4/zones/z1/dns_records''),
          (DELETE, ''https://api.cloudflare.com/client/v4/zones/z1/dns_records/r1''),
          (DELETE, ''https://api.cloudflare.com/client/v4/accounts/acc/cfd_tunnel/tid'')]"
    by blast+
  from c res have count: "deleted_count (trace (snd two_zone_teardown)) = 2" by simp
  from a b have "\<exists>rqz repz segs rq rep.
         trace (snd two_zone_teardown)
           = EHttp TeardownZones rqz repz # concat segs @ [EHttp DeleteTunnel rq rep]
       \<and> list_all2 (zone_visit ''demo'') [zone0, zone1] segs" by blast
  with res count sent show ?thesis by blast
qed

text \<open>
  The claim as stated has every record deleted whose name starts with the name of the
  tunnel and a dot. For the tunnel \<open>my.app\<close> the zone holds the record \<open>r3\<close>, named
  \<open>my.app.example.com\<close>, which passes the test of the second loop; but the name of the
  tunnel contains a dot, so the script never lists the records of the zone: it asks for
  the records named \<open>my.app\<close> (the name of the tunnel, not the hostname), gets none, deletes
  the tunnel and returns 0. The record is left behind.
\<close>

theorem dotted_name_counterexample:
  "fst dotted_teardown = Inr 0
   \<and> calls (trace (snd dotted_teardown))
       = [(GET, ''https://api.cloudflare.com/client/v4/accounts/acc/zones''),
          (GET, ''https://api.cloudflare.com/client/v4/zones/z1/dns_records?name=my.app''),
          (DELETE, ''https://api.cloudflare.com/client/v4/accounts/acc/cfd_tunnel/tid'')]
   \<and> listed (fst (http provider_sys
        \<lparr>req_method = GET,
         req_url = ''https://api.cloudflare.com/client/v4/zones/z1/dns_records'',
         req_headers = [(''Authorization'', ''Bearer tok''), (''Content-Type'', ''application/json'')],
         req_json = None\<rparr> machine0)) = Some zone1_records
   \<and> dns_record ''r3'' ''my.app.example.com'' \<in> set zone1_records
   \<and> record_matches ''my.app'' (dns_record ''r3'' ''my.app.example.com'') = Some True
   \<and> \<not> delete_sent (JStr ''z1'') (JStr ''r3'') (trace (snd dotted_teardown))"
  by (simp add: dotted_teardown_def model_defs machine_defs provider_defs calls_def
        List.map_filter_simps result_items_def record_matches_def
        delete_sent_def)

end
